theory Spec2Isabelle
  imports Main "HOL-Library.Multiset"
begin

section \<open>Random search over a queryable search space (naslib/optimizers/discrete/rs/optimizer.py)\<close>

text \<open>
  The optimizer samples discrete architectures from a search space, asks a benchmark
  for their validation accuracy and keeps the sampled models. The search-space graph
  (\<open>clone\<close>, \<open>prepare_discretization\<close>, \<open>update_edges\<close>, \<open>query\<close>, the attributes
  \<open>QUERYABLE\<close> and \<open>OPTIMIZER_SCOPE\<close>) and numpy's random generator are collaborators
  defined outside the file; they enter the model as parameters.
\<close>

subsection \<open>Python exceptions and values\<close>

text \<open>
  The exceptions the code can raise. \<open>LibraryError\<close> stands for anything a collaborator
  raises on its own (a failed benchmark lookup, for instance).
\<close>

datatype error =
    AssertionError
  | ValueError
  | TypeError
  | IndexError
  | AttributeError
  | LibraryError

text \<open>The members of \<open>Metric\<close> that the optimizer names.\<close>

datatype metric = VAL_ACCURACY | TRAIN_ACCURACY | TRAIN_LOSS | VAL_LOSS | RAW

text \<open>
  What the benchmark answers is a Python float: \<open>Num r\<close> is an ordered value (a
  finite number or an infinity), \<open>NaN\<close> is not-a-number. \<open>py_gt\<close> is Python's \<open>>\<close>
  on floats: every comparison with \<open>NaN\<close> is false.
\<close>

datatype 'r py_float = NaN | Num 'r

fun py_gt :: "'r::linorder py_float \<Rightarrow> 'r py_float \<Rightarrow> bool" where
  "py_gt (Num a) (Num b) = (b < a)"
| "py_gt NaN _ = False"
| "py_gt _ NaN = False"

text \<open>
  A scope is a string or a list of strings; the \<open>scope\<close> argument may also be
  \<open>None\<close>, which is \<open>None\<close> of \<open>scope option\<close>. \<open>truthy\<close> is Python's truth value:
  \<open>None\<close>, the empty string and the empty list are false.
\<close>

datatype scope = ScopeStr string | ScopeList "string list"

fun truthy :: "scope option \<Rightarrow> bool" where
  "truthy None = False"
| "truthy (Some (ScopeStr s)) = (s \<noteq> [])"
| "truthy (Some (ScopeList ss)) = (ss \<noteq> [])"

text \<open>
  Python's \<open>xs[i]\<close>: an index in \<open>[0, len)\<close> reads from the front, one in
  \<open>[-len, 0)\<close> from the back, anything else raises \<open>IndexError\<close>.
\<close>

definition py_index :: "'a list \<Rightarrow> int \<Rightarrow> error + 'a" where
  "py_index xs i =
     (if 0 \<le> i \<and> i < int (length xs) then Inr (xs ! nat i)
      else if i < 0 \<and> - int (length xs) \<le> i then Inr (xs ! nat (int (length xs) + i))
      else Inl IndexError)"

subsection \<open>The random generator\<close>

text \<open>
  numpy's global generator is an infinite tape of raw draws; \<open>np.random.randint(n)\<close>
  raises \<open>ValueError\<close> for \<open>n \<le> 0\<close> and otherwise consumes one draw and returns a
  number in \<open>[0, n)\<close>. \<open>len\<close> is never negative, so \<open>n\<close> is a \<open>nat\<close>.
\<close>

type_synonym rng = "nat \<Rightarrow> nat"

definition randint :: "nat \<Rightarrow> rng \<Rightarrow> error + int \<times> rng" where
  "randint n r =
     (if n = 0 then Inl ValueError
      else Inr (int (r 0 mod n), \<lambda>i. r (Suc i)))"

subsection \<open>Edges: sampling an operation and discretising\<close>

text \<open>
  The attributes of \<open>edge.data\<close> that the two update functions touch. \<open>op\<close> is either
  the list of candidate primitives or a single operation (which has no \<open>len\<close>);
  \<open>op_index\<close> and \<open>primitives\<close> may be unset, and reading an unset attribute raises
  \<open>AttributeError\<close>. \<open>edge.data.set\<close> is an assignment to the attribute.
\<close>

datatype 'o op_attr = OpList "'o list" | OpSingle 'o

record 'o edge_data =
  op :: "'o op_attr"
  op_index :: "int option"
  primitives :: "'o list option"

definition add_sampled_op_index :: "'o edge_data \<Rightarrow> rng \<Rightarrow> error + 'o edge_data \<times> rng" where
  "add_sampled_op_index edge r =
     (case op edge of
        OpSingle _ \<Rightarrow> Inl TypeError
      | OpList ops \<Rightarrow>
          (case randint (length ops) r of
             Inl err \<Rightarrow> Inl err
           | Inr (k, r') \<Rightarrow> Inr (edge\<lparr>op_index := Some k\<rparr>, r')))"

definition update_ops :: "'o edge_data \<Rightarrow> error + 'o edge_data" where
  "update_ops edge =
     (case (case op edge of
              OpList ops \<Rightarrow> Inr ops
            | OpSingle _ \<Rightarrow>
                (case primitives edge of None \<Rightarrow> Inl AttributeError | Some ps \<Rightarrow> Inr ps)) of
        Inl err \<Rightarrow> Inl err
      | Inr prims \<Rightarrow>
          (case op_index edge of
             None \<Rightarrow> Inl AttributeError
           | Some i \<Rightarrow>
               (case py_index prims i of
                  Inl err \<Rightarrow> Inl err
                | Inr chosen \<Rightarrow> Inr (edge\<lparr>op := OpSingle chosen, primitives := Some prims\<rparr>))))"

text \<open>
  \<open>update_ops\<close> draws no random number; as an argument of \<open>update_edges\<close> it hands
  the generator through unchanged.
\<close>

definition no_draw :: "('e \<Rightarrow> error + 'e) \<Rightarrow> 'e \<Rightarrow> rng \<Rightarrow> error + 'e \<times> rng" where
  "no_draw f edge r = (case f edge of Inl err \<Rightarrow> Inl err | Inr edge' \<Rightarrow> Inr (edge', r))"

subsection \<open>The search-space interface and the object store\<close>

text \<open>
  The methods and attributes of a search-space graph that the optimizer uses, as
  functions on the graph's value. A method that mutates its receiver returns the
  receiver's new value, also when it raises (it may have changed part of the graph
  before the exception). \<open>query\<close> only reads.
\<close>

record ('g, 'o, 'd, 'v) search_space_api =
  QUERYABLE :: "'g \<Rightarrow> bool"
  OPTIMIZER_SCOPE :: "'g \<Rightarrow> scope"
  prepare_discretization :: "'g \<Rightarrow> (error + unit) \<times> 'g"
  update_edges ::
    "('o edge_data \<Rightarrow> rng \<Rightarrow> error + 'o edge_data \<times> rng) \<Rightarrow> scope \<Rightarrow> bool \<Rightarrow>
       'g \<Rightarrow> rng \<Rightarrow> (error + unit) \<times> 'g \<times> rng"
  query :: "'g \<Rightarrow> metric \<Rightarrow> 'd \<Rightarrow> error + 'v"

text \<open>
  Graphs are mutable objects, so they live in a store: a graph reference is an index
  into \<open>heap\<close>. The world is the store together with the random generator.
\<close>

type_synonym addr = nat

record 'g world =
  heap :: "'g list"
  rng :: rng

text \<open>
  Modelled from the spec: \<open>Graph.clone\<close> is not part of the file; the result is a clone
  of the search space, that is a new object with a copy of the receiver's contents. The
  new object takes the next free address.
\<close>

definition clone :: "addr \<Rightarrow> 'g world \<Rightarrow> addr \<times> 'g world" where
  "clone a w = (length (heap w), w\<lparr>heap := heap w @ [heap w ! a]\<rparr>)"

definition sample_random_architecture ::
  "('g, 'o, 'd, 'v) search_space_api \<Rightarrow> addr \<Rightarrow> scope \<Rightarrow> 'g world \<Rightarrow>
     (error + addr) \<times> 'g world" where
  "sample_random_architecture api search_space scope w =
     (case clone search_space w of
        (architecture, w1) \<Rightarrow>
          (case prepare_discretization api (heap w1 ! architecture) of
             (Inl err, g2) \<Rightarrow> (Inl err, w1\<lparr>heap := (heap w1)[architecture := g2]\<rparr>)
           | (Inr _, g2) \<Rightarrow>
               (case update_edges api add_sampled_op_index scope False g2 (rng w1) of
                  (Inl err, g3, r3) \<Rightarrow>
                    (Inl err, w1\<lparr>heap := (heap w1)[architecture := g3], rng := r3\<rparr>)
                | (Inr _, g3, r3) \<Rightarrow>
                    (case update_edges api (no_draw update_ops) scope True g3 r3 of
                       (Inl err, g4, r4) \<Rightarrow>
                         (Inl err, w1\<lparr>heap := (heap w1)[architecture := g4], rng := r4\<rparr>)
                     | (Inr _, g4, r4) \<Rightarrow>
                         (Inr architecture,
                          w1\<lparr>heap := (heap w1)[architecture := g4], rng := r4\<rparr>)))))"

subsection \<open>The optimizer\<close>

text \<open>
  A sampled model: the reference to its architecture and the accuracy the benchmark
  returned for it.
\<close>

record 'v model =
  arch :: addr
  accuracy :: 'v

record 'd config =
  config_dataset :: 'd

text \<open>
  The attributes of a \<open>RandomSearch\<close> object. \<open>search_space\<close> and \<open>scope\<close> do not
  exist before \<open>adapt_search_space\<close> has run: \<open>None\<close> is the unset attribute.
\<close>

record ('t, 'c, 'd, 'v) RandomSearch =
  weight_optimizer :: 't
  loss :: 't
  grad_clip :: "'c option"
  performance_metric :: metric
  dataset :: 'd
  sampled_archs :: "'v model list"
  history :: "'v model list"
  search_space :: "addr option"
  scope :: "scope option"

definition using_step_function :: bool where
  "using_step_function = False"

definition RandomSearch_init ::
  "'d config \<Rightarrow> 't \<Rightarrow> 't \<Rightarrow> 'c option \<Rightarrow> ('t, 'c, 'd, 'v) RandomSearch" where
  "RandomSearch_init config weight_optimizer' loss_criteria grad_clip' =
     \<lparr>weight_optimizer = weight_optimizer',
      loss = loss_criteria,
      grad_clip = grad_clip',
      performance_metric = VAL_ACCURACY,
      dataset = config_dataset config,
      sampled_archs = [],
      history = [],
      search_space = None,
      scope = None\<rparr>"

definition adapt_search_space ::
  "('g, 'o, 'd, 'v) search_space_api \<Rightarrow> ('t, 'c, 'd, 'v) RandomSearch \<Rightarrow> addr \<Rightarrow>
     scope option \<Rightarrow> 'g world \<Rightarrow> (error + unit) \<times> ('t, 'c, 'd, 'v) RandomSearch \<times> 'g world" where
  "adapt_search_space api self search_space' scope' w =
     (if \<not> QUERYABLE api (heap w ! search_space') then (Inl AssertionError, self, w)
      else
        (case clone search_space' w of
           (c, w1) \<Rightarrow>
             (Inr (),
              self\<lparr>search_space := Some c,
                   scope := Some (if truthy scope' then the scope'
                                  else OPTIMIZER_SCOPE api (heap w1 ! search_space'))\<rparr>,
              w1)))"

text \<open>
  \<open>_update_history\<close>: the loop over the full history overwrites the first entry whose
  accuracy is below the child's and stops.
\<close>

fun replace_first ::
  "'r::linorder py_float model \<Rightarrow> 'r py_float model list \<Rightarrow> 'r py_float model list" where
  "replace_first child [] = []"
| "replace_first child (p # ps) =
     (if py_gt (accuracy child) (accuracy p) then child # ps else p # replace_first child ps)"

definition update_history ::
  "'r::linorder py_float model list \<Rightarrow> 'r py_float model \<Rightarrow> 'r py_float model list" where
  "update_history hist child =
     (if length hist < 100 then hist @ [child] else replace_first child hist)"

definition new_epoch ::
  "('g, 'o, 'd, 'r::linorder py_float) search_space_api \<Rightarrow> nat \<Rightarrow>
     ('t, 'c, 'd, 'r py_float) RandomSearch \<Rightarrow> 'g world \<Rightarrow>
     (error + unit) \<times> ('t, 'c, 'd, 'r py_float) RandomSearch \<times> 'g world" where
  "new_epoch api e self w =
     (case search_space self of
        None \<Rightarrow> (Inl AttributeError, self, w)
      | Some ss \<Rightarrow>
          (case scope self of
             None \<Rightarrow> (Inl AttributeError, self, w)
           | Some sc \<Rightarrow>
               (case sample_random_architecture api ss sc w of
                  (Inl err, w1) \<Rightarrow> (Inl err, self, w1)
                | (Inr a, w1) \<Rightarrow>
                    (case query api (heap w1 ! a) (performance_metric self) (dataset self) of
                       Inl err \<Rightarrow> (Inl err, self, w1)
                     | Inr acc \<Rightarrow>
                         (Inr (),
                          self\<lparr>sampled_archs := sampled_archs self @ [\<lparr>arch = a, accuracy = acc\<rparr>],
                               history := update_history (history self)
                                            \<lparr>arch = a, accuracy = acc\<rparr>\<rparr>,
                          w1)))))"

text \<open>
  Python's \<open>max(xs, key=...)\<close>: \<open>ValueError\<close> on the empty list; otherwise it starts
  with the first element and moves on to a later one exactly when that one's key is
  \<open>>\<close> the key of the current one.
\<close>

fun max_by_accuracy :: "'r::linorder py_float model list \<Rightarrow> error + 'r py_float model" where
  "max_by_accuracy [] = Inl ValueError"
| "max_by_accuracy (x # xs) =
     Inr (foldl (\<lambda>best y. if py_gt (accuracy y) (accuracy best) then y else best) x xs)"

definition get_final_architecture ::
  "('t, 'c, 'd, 'r::linorder py_float) RandomSearch \<Rightarrow> error + addr" where
  "get_final_architecture self =
     (case max_by_accuracy (sampled_archs self) of
        Inl err \<Rightarrow> Inl err
      | Inr m \<Rightarrow> Inr (arch m))"

definition train_statistics ::
  "('g, 'o, 'd, 'r::linorder py_float) search_space_api \<Rightarrow> ('t, 'c, 'd, 'r py_float) RandomSearch \<Rightarrow> 'g world \<Rightarrow>
     error + 'r py_float \<times> 'r py_float \<times> 'r py_float \<times> 'r py_float" where
  "train_statistics api self w =
     (case get_final_architecture self of
        Inl err \<Rightarrow> Inl err
      | Inr best_arch \<Rightarrow>
          (case query api (heap w ! best_arch) TRAIN_ACCURACY (dataset self) of
             Inl err \<Rightarrow> Inl err
           | Inr train_acc \<Rightarrow>
               (case query api (heap w ! best_arch) TRAIN_LOSS (dataset self) of
                  Inl err \<Rightarrow> Inl err
                | Inr train_loss \<Rightarrow>
                    (case query api (heap w ! best_arch) VAL_ACCURACY (dataset self) of
                       Inl err \<Rightarrow> Inl err
                     | Inr val_acc \<Rightarrow>
                         (case query api (heap w ! best_arch) VAL_LOSS (dataset self) of
                            Inl err \<Rightarrow> Inl err
                          | Inr val_loss \<Rightarrow> Inr (train_acc, train_loss, val_acc, val_loss))))))"

definition test_statistics ::
  "('g, 'o, 'd, 'r::linorder py_float) search_space_api \<Rightarrow> ('t, 'c, 'd, 'r py_float) RandomSearch \<Rightarrow> 'g world \<Rightarrow>
     error + 'r py_float" where
  "test_statistics api self w =
     (case get_final_architecture self of
        Inl err \<Rightarrow> Inl err
      | Inr best_arch \<Rightarrow> query api (heap w ! best_arch) RAW (dataset self))"

definition get_op_optimizer :: "('t, 'c, 'd, 'v) RandomSearch \<Rightarrow> 't" where
  "get_op_optimizer self = weight_optimizer self"

definition get_checkpointables :: "('t, 'c, 'd, 'v) RandomSearch \<Rightarrow> 'v model list" where
  "get_checkpointables self = history self"

text \<open>
  A sequence of \<open>new_epoch\<close> calls, one per epoch number of the list; an exception ends
  the sequence.
\<close>

fun new_epochs ::
  "('g, 'o, 'd, 'r::linorder py_float) search_space_api \<Rightarrow> nat list \<Rightarrow> ('t, 'c, 'd, 'r py_float) RandomSearch \<Rightarrow>
     'g world \<Rightarrow> (error + unit) \<times> ('t, 'c, 'd, 'r py_float) RandomSearch \<times> 'g world" where
  "new_epochs api [] self w = (Inr (), self, w)"
| "new_epochs api (e # es) self w =
     (case new_epoch api e self w of
        (Inl err, self', w') \<Rightarrow> (Inl err, self', w')
      | (Inr _, self', w') \<Rightarrow> new_epochs api es self' w')"

text \<open>
  The optimizer's life as its caller drives it: construct it, adapt the search space,
  then run the epochs.
\<close>

definition random_search ::
  "('g, 'o, 'd, 'r::linorder py_float) search_space_api \<Rightarrow> 'd config \<Rightarrow> 't \<Rightarrow> 't \<Rightarrow> 'c option \<Rightarrow>
     addr \<Rightarrow> scope option \<Rightarrow> nat list \<Rightarrow> 'g world \<Rightarrow>
     (error + unit) \<times> ('t, 'c, 'd, 'r py_float) RandomSearch \<times> 'g world" where
  "random_search api config weight_optimizer' loss_criteria grad_clip' search_space' scope' es w =
     (case adapt_search_space api
             (RandomSearch_init config weight_optimizer' loss_criteria grad_clip')
             search_space' scope' w of
        (Inl err, self, w1) \<Rightarrow> (Inl err, self, w1)
      | (Inr _, self, w1) \<Rightarrow> new_epochs api es self w1)"

subsection \<open>Notions used in the statements\<close>

text \<open>
  Every sampled model points into the store, and its accuracy is what the benchmark
  answers for its architecture under the optimizer's metric and dataset.
\<close>

definition recorded ::
  "('g, 'o, 'd, 'v) search_space_api \<Rightarrow> ('t, 'c, 'd, 'v) RandomSearch \<Rightarrow> 'g world \<Rightarrow> bool" where
  "recorded api self w \<longleftrightarrow>
     (\<forall>m \<in> set (sampled_archs self).
        arch m < length (heap w) \<and>
        query api (heap w ! arch m) (performance_metric self) (dataset self) = Inr (accuracy m))"

text \<open>
  \<open>py_le\<close> is Python's \<open><=\<close> on floats, false whenever \<open>NaN\<close> is involved. A model is
  a best one of a list when it is in the list, its accuracy is a number and no model of
  the list has an accuracy \<open>>\<close> its own.
\<close>

fun py_le :: "'r::linorder py_float \<Rightarrow> 'r py_float \<Rightarrow> bool" where
  "py_le (Num a) (Num b) = (a \<le> b)"
| "py_le NaN _ = False"
| "py_le _ NaN = False"

definition best_of :: "'r::linorder py_float model \<Rightarrow> 'r py_float model list \<Rightarrow> bool" where
  "best_of m ms \<longleftrightarrow>
     m \<in> set ms \<and> accuracy m \<noteq> NaN \<and> (\<forall>m' \<in> set ms. \<not> py_gt (accuracy m') (accuracy m))"

text \<open>
  A top-\<open>k\<close> history of the sampled models, in the words of the specification: the
  history consists of \<open>k\<close> of the sampled models (of all of them while there are fewer
  than \<open>k\<close>), and no sampled model left out of it is more accurate than one in it.
\<close>

definition top_k_of ::
  "nat \<Rightarrow> 'r::linorder py_float model list \<Rightarrow> 'r py_float model list \<Rightarrow> bool" where
  "top_k_of k hist sampled \<longleftrightarrow>
     mset hist \<subseteq># mset sampled \<and>
     length hist = min (length sampled) k \<and>
     (\<forall>p \<in> set hist. \<forall>m \<in># mset sampled - mset hist. \<not> py_gt (accuracy m) (accuracy p))"

subsection \<open>A concrete search space\<close>

text \<open>
  The smallest search space: the graph is one edge, \<open>update_edges\<close> applies the update
  function to that edge, and the benchmark's answer for a discretised graph is the
  number of the operation on the edge. A graph with no candidate operation is not
  queryable.
\<close>

definition one_edge_api :: "(nat edge_data, nat, 'd, nat py_float) search_space_api" where
  "one_edge_api =
     \<lparr>QUERYABLE = (\<lambda>g. op g \<noteq> OpList []),
      OPTIMIZER_SCOPE = (\<lambda>g. ScopeStr ''all''),
      prepare_discretization = (\<lambda>g. (Inr (), g)),
      update_edges =
        (\<lambda>f sc private g r.
           case f g r of Inl err \<Rightarrow> (Inl err, g, r) | Inr (g', r') \<Rightarrow> (Inr (), g', r')),
      query =
        (\<lambda>g m d. case op g of OpSingle a \<Rightarrow> Inr (Num a) | OpList _ \<Rightarrow> Inl LibraryError)\<rparr>"

definition three_ops :: "nat edge_data" where
  "three_ops = \<lparr>op = OpList [0, 1, 2], op_index = None, primitives = None\<rparr>"

definition no_ops :: "nat edge_data" where
  "no_ops = \<lparr>op = OpList [], op_index = None, primitives = None\<rparr>"

text \<open>
  A tape of draws: the second sampled model gets accuracy 0, the 101st accuracy 2 and
  every other model accuracy 1.
\<close>

definition skewed_draws :: rng where
  "skewed_draws = (\<lambda>i. if i = 1 then 0 else if i = 100 then 2 else 1)"

definition demo_world :: "nat edge_data world" where
  "demo_world = \<lparr>heap = [three_ops, no_ops], rng = skewed_draws\<rparr>"

definition demo_run ::
  "nat \<Rightarrow> (error + unit) \<times> (unit, unit, unit, nat py_float) RandomSearch \<times>
     nat edge_data world" where
  "demo_run n =
     random_search one_edge_api \<lparr>config_dataset = ()\<rparr> () () None 0 None [0..<n] demo_world"

text \<open>
  The same search space over a benchmark that has no number for operation 0: its
  answer there is \<open>NaN\<close>. On the first tape the accuracies of the sampled models are
  \<open>NaN, 2, 1, 1, \<dots>\<close>; on the second the first hundred are \<open>NaN\<close> and the next is 2.
\<close>

definition nan_edge_api :: "(nat edge_data, nat, 'd, nat py_float) search_space_api" where
  "nan_edge_api =
     one_edge_api
       \<lparr>query :=
          (\<lambda>g m d. case op g of
                     OpSingle a \<Rightarrow> Inr (if a = 0 then NaN else Num a)
                   | OpList _ \<Rightarrow> Inl LibraryError)\<rparr>"

definition nan_first_draws :: rng where
  "nan_first_draws = (\<lambda>i. if i = 0 then 0 else if i = 1 then 2 else 1)"

definition nan_hundred_draws :: rng where
  "nan_hundred_draws = (\<lambda>i. if i = 100 then 2 else 0)"

definition nan_run ::
  "rng \<Rightarrow> nat \<Rightarrow> (error + unit) \<times> (unit, unit, unit, nat py_float) RandomSearch \<times>
     nat edge_data world" where
  "nan_run draws n =
     random_search nan_edge_api \<lparr>config_dataset = ()\<rparr> () () None 0 None [0..<n]
       \<lparr>heap = [three_ops, no_ops], rng = draws\<rparr>"

section \<open>Properties\<close>

subsection \<open>Auxiliary facts\<close>

lemma py_le_refl: "v \<noteq> NaN \<Longrightarrow> py_le v v"
  by (cases v) auto

lemma py_gt_imp_le: "py_gt a b \<Longrightarrow> py_le b a"
  by (cases a; cases b) auto

lemma not_py_gt_imp_le: "a \<noteq> NaN \<Longrightarrow> b \<noteq> NaN \<Longrightarrow> \<not> py_gt a b \<Longrightarrow> py_le a b"
  by (cases a; cases b) auto

lemma py_le_trans: "py_le a b \<Longrightarrow> py_le b c \<Longrightarrow> py_le a c"
  by (cases a; cases b; cases c) auto

lemma foldl_best_mem:
  "foldl (\<lambda>best y. if py_gt (accuracy y) (accuracy best) then y else best) x xs \<in> set (x # xs)"
  by (induction xs arbitrary: x) auto

lemma foldl_best_nan:
  "accuracy x = NaN \<Longrightarrow>
   foldl (\<lambda>best y. if py_gt (accuracy y) (accuracy best) then y else best) x xs = x"
proof (induction xs)
  case Nil
  show ?case by simp
next
  case (Cons y ys)
  from Cons.prems have "\<not> py_gt (accuracy y) (accuracy x)"
    by (cases "accuracy y") simp_all
  with Cons show ?case by simp
qed

lemma foldl_best_num:
  "accuracy x = Num a \<Longrightarrow>
   \<exists>b. accuracy (foldl (\<lambda>best y. if py_gt (accuracy y) (accuracy best) then y else best) x xs)
          = Num b \<and>
       a \<le> b \<and> (\<forall>y \<in> set xs. \<forall>c. accuracy y = Num c \<longrightarrow> c \<le> b)"
proof (induction xs arbitrary: x a)
  case Nil
  then show ?case by simp
next
  case (Cons y ys)
  show ?case
  proof (cases "py_gt (accuracy y) (accuracy x)")
    case True
    with Cons.prems obtain c where c: "accuracy y = Num c" "a < c"
      by (cases "accuracy y") auto
    from Cons.IH [OF c(1)] obtain b where
      "accuracy (foldl (\<lambda>best y. if py_gt (accuracy y) (accuracy best) then y else best) y ys)
         = Num b"
      and "c \<le> b" and "\<forall>z \<in> set ys. \<forall>d. accuracy z = Num d \<longrightarrow> d \<le> b"
      by blast
    with True c show ?thesis by auto
  next
    case False
    from Cons.IH [OF Cons.prems] obtain b where
      b: "accuracy (foldl (\<lambda>best y. if py_gt (accuracy y) (accuracy best) then y else best) x ys)
         = Num b"
      "a \<le> b" "\<forall>z \<in> set ys. \<forall>d. accuracy z = Num d \<longrightarrow> d \<le> b"
      by blast
    have "\<forall>c. accuracy y = Num c \<longrightarrow> c \<le> b"
    proof (intro allI impI)
      fix c assume "accuracy y = Num c"
      with False Cons.prems have "c \<le> a" by simp
      with b(2) show "c \<le> b" by simp
    qed
    with False b show ?thesis by auto
  qed
qed

lemma max_by_accuracy_cases:
  assumes "xs \<noteq> []"
  shows "\<exists>m \<in> set xs. max_by_accuracy xs = Inr m \<and>
           ((accuracy (hd xs) = NaN \<and> m = hd xs) \<or>
            (\<exists>b. accuracy m = Num b \<and> (\<forall>y \<in> set xs. \<forall>c. accuracy y = Num c \<longrightarrow> c \<le> b)))"
proof (cases xs)
  case Nil
  with assms show ?thesis by simp
next
  case (Cons x ys)
  let ?m = "foldl (\<lambda>best y. if py_gt (accuracy y) (accuracy best) then y else best) x ys"
  have mem: "?m \<in> set xs" unfolding Cons by (rule foldl_best_mem)
  have res: "max_by_accuracy xs = Inr ?m" by (simp add: Cons)
  show ?thesis
  proof (cases "accuracy x")
    case NaN
    then have "?m = x" by (rule foldl_best_nan)
    with NaN Cons mem res show ?thesis by auto
  next
    case (Num a)
    from foldl_best_num [OF Num, of ys] obtain b where
      b: "accuracy ?m = Num b" "a \<le> b" "\<forall>y \<in> set ys. \<forall>c. accuracy y = Num c \<longrightarrow> c \<le> b"
      by blast
    with Num have "\<forall>y \<in> set xs. \<forall>c. accuracy y = Num c \<longrightarrow> c \<le> b"
      by (auto simp: Cons)
    with b(1) mem res show ?thesis by blast
  qed
qed

lemma best_of_Num:
  assumes "m \<in> set xs" and "accuracy m = Num b"
    and "\<forall>y \<in> set xs. \<forall>c. accuracy y = Num c \<longrightarrow> c \<le> b"
  shows "best_of m xs"
proof -
  have "\<forall>m' \<in> set xs. \<not> py_gt (accuracy m') (accuracy m)"
  proof
    fix m' assume m': "m' \<in> set xs"
    show "\<not> py_gt (accuracy m') (accuracy m)"
    proof (cases "accuracy m'")
      case NaN
      then show ?thesis by simp
    next
      case (Num c)
      with assms(3) m' have "c \<le> b" by blast
      with Num assms(2) show ?thesis by simp
    qed
  qed
  with assms(1,2) show ?thesis by (simp add: best_of_def)
qed

lemma max_by_accuracy_first_or_best:
  assumes "xs \<noteq> []"
  shows "\<exists>m \<in> set xs. max_by_accuracy xs = Inr m \<and>
           ((accuracy (hd xs) = NaN \<and> m = hd xs) \<or> best_of m xs)"
proof -
  from max_by_accuracy_cases [OF assms] obtain m where
    m: "m \<in> set xs" "max_by_accuracy xs = Inr m"
    and alt: "(accuracy (hd xs) = NaN \<and> m = hd xs) \<or>
            (\<exists>b. accuracy m = Num b \<and> (\<forall>y \<in> set xs. \<forall>c. accuracy y = Num c \<longrightarrow> c \<le> b))"
    by blast
  from alt have "(accuracy (hd xs) = NaN \<and> m = hd xs) \<or> best_of m xs"
    using best_of_Num [OF m(1)] by blast
  with m show ?thesis by blast
qed

lemma sample_random_architecture_heap:
  assumes "sample_random_architecture api ss sc w = (res, w')"
  shows "length (heap w') = Suc (length (heap w))"
    and "\<And>b. b < length (heap w) \<Longrightarrow> heap w' ! b = heap w ! b"
    and "\<And>a. res = Inr a \<Longrightarrow> a = length (heap w)"
  using assms
  by (auto simp: sample_random_architecture_def clone_def nth_append
      split: prod.splits sum.splits)

lemma new_epoch_Inr:
  assumes "new_epoch api e self w = (Inr u, self', w')"
  shows "\<exists>ss sc a acc.
           search_space self = Some ss \<and> scope self = Some sc \<and>
           sample_random_architecture api ss sc w = (Inr a, w') \<and>
           query api (heap w' ! a) (performance_metric self) (dataset self) = Inr acc \<and>
           self' = self\<lparr>sampled_archs := sampled_archs self @ [\<lparr>arch = a, accuracy = acc\<rparr>],
                        history := update_history (history self) \<lparr>arch = a, accuracy = acc\<rparr>\<rparr>"
  using assms
  by (auto simp: new_epoch_def split: option.splits prod.splits sum.splits)

lemma new_epoch_Inl:
  assumes "new_epoch api e self w = (Inl err, self', w')"
  shows "self' = self"
  using assms
  by (auto simp: new_epoch_def split: option.splits prod.splits sum.splits)

lemma length_replace_first: "length (replace_first child hist) = length hist"
  by (induction hist) auto

lemma length_update_history:
  "length (update_history hist child) = (if length hist < 100 then Suc (length hist) else length hist)"
  by (simp add: update_history_def length_replace_first)

lemma mset_replace_first: "mset (replace_first child hist) \<subseteq># add_mset child (mset hist)"
proof (induction hist)
  case Nil
  show ?case by simp
next
  case (Cons p ps)
  show ?case
  proof (cases "py_gt (accuracy child) (accuracy p)")
    case True
    have "add_mset child (mset ps) \<subseteq># add_mset child (add_mset p (mset ps))"
      by simp
    with True show ?thesis by simp
  next
    case False
    from Cons have "add_mset p (mset (replace_first child ps)) \<subseteq># add_mset p (add_mset child (mset ps))"
      by simp
    with False show ?thesis by (simp add: add_mset_commute)
  qed
qed

lemma mset_update_history:
  "mset H \<subseteq># mset S \<Longrightarrow> mset (update_history H m) \<subseteq># mset (S @ [m])"
proof -
  assume sub: "mset H \<subseteq># mset S"
  show ?thesis
  proof (cases "length H < 100")
    case True
    with sub show ?thesis by (simp add: update_history_def)
  next
    case False
    have "mset (replace_first m H) \<subseteq># add_mset m (mset H)"
      by (rule mset_replace_first)
    also from sub have "add_mset m (mset H) \<subseteq># add_mset m (mset S)"
      by simp
    finally show ?thesis using False by (simp add: update_history_def)
  qed
qed

lemma replace_first_dominates:
  "p \<in> set hist \<Longrightarrow> accuracy p \<noteq> NaN \<Longrightarrow>
   \<exists>q \<in> set (replace_first child hist). py_le (accuracy p) (accuracy q)"
proof (induction hist)
  case Nil
  then show ?case by simp
next
  case (Cons x xs)
  show ?case
  proof (cases "py_gt (accuracy child) (accuracy x)")
    case True
    from Cons.prems(1) consider "p = x" | "p \<in> set xs" by auto
    then show ?thesis
    proof cases
      case 1
      with True have "py_le (accuracy p) (accuracy child)" by (simp add: py_gt_imp_le)
      with True show ?thesis by auto
    next
      case 2
      with True Cons.prems(2) show ?thesis by (auto intro: py_le_refl)
    qed
  next
    case False
    from Cons.prems(1) consider "p = x" | "p \<in> set xs" by auto
    then show ?thesis
    proof cases
      case 1
      with False Cons.prems(2) show ?thesis by (auto intro: py_le_refl)
    next
      case 2
      from Cons.IH [OF 2 Cons.prems(2)] False show ?thesis by auto
    qed
  qed
qed

lemma replace_first_covers_child:
  "accuracy child \<noteq> NaN \<Longrightarrow> \<exists>p \<in> set hist. accuracy p \<noteq> NaN \<Longrightarrow>
   \<exists>q \<in> set (replace_first child hist). py_le (accuracy child) (accuracy q)"
proof (induction hist)
  case Nil
  then show ?case by simp
next
  case (Cons x xs)
  show ?case
  proof (cases "py_gt (accuracy child) (accuracy x)")
    case True
    with Cons.prems(1) show ?thesis by (auto intro: py_le_refl)
  next
    case False
    show ?thesis
    proof (cases "accuracy x = NaN")
      case True
      with Cons.prems(2) have "\<exists>p \<in> set xs. accuracy p \<noteq> NaN" by auto
      from Cons.IH [OF Cons.prems(1) this] False show ?thesis by auto
    next
      case notnan: False
      with Cons.prems(1) False have "py_le (accuracy child) (accuracy x)"
        by (simp add: not_py_gt_imp_le)
      with False show ?thesis by auto
    qed
  qed
qed

lemma update_history_dominates:
  assumes "p \<in> set hist" and "accuracy p \<noteq> NaN"
  shows "\<exists>q \<in> set (update_history hist child). py_le (accuracy p) (accuracy q)"
proof (cases "length hist < 100")
  case True
  with assms show ?thesis by (auto simp: update_history_def intro: py_le_refl)
next
  case False
  with replace_first_dominates [OF assms, of child] show ?thesis
    by (simp add: update_history_def)
qed

lemma update_history_covers_child:
  assumes "accuracy child \<noteq> NaN"
    and "length hist < 100 \<or> (\<exists>p \<in> set hist. accuracy p \<noteq> NaN)"
  shows "\<exists>q \<in> set (update_history hist child). py_le (accuracy child) (accuracy q)"
proof (cases "length hist < 100")
  case True
  with assms(1) show ?thesis by (auto simp: update_history_def intro: py_le_refl)
next
  case False
  with assms(2) have "\<exists>p \<in> set hist. accuracy p \<noteq> NaN" by simp
  from replace_first_covers_child [OF assms(1) this] False show ?thesis
    by (simp add: update_history_def)
qed

lemma py_le_not_NaN: "py_le a b \<Longrightarrow> a \<noteq> NaN \<and> b \<noteq> NaN"
  by (cases a; cases b) auto

lemma new_epochs_count:
  assumes "new_epochs api es self w = (Inr u, self', w')"
  shows "length (sampled_archs self') = length (sampled_archs self) + length es"
  using assms
proof (induction es arbitrary: self w)
  case Nil
  then show ?case by simp
next
  case (Cons e es)
  obtain res self1 w1 where ne: "new_epoch api e self w = (res, self1, w1)"
    by (cases "new_epoch api e self w") auto
  with Cons.prems(1) obtain u1 where res: "res = Inr u1"
    by (cases res) auto
  from ne res Cons.prems(1) have rest: "new_epochs api es self1 w1 = (Inr u, self', w')"
    by simp
  from new_epoch_Inr [OF ne [unfolded res]] have "length (sampled_archs self1) = Suc (length (sampled_archs self))"
    by auto
  with Cons.IH [OF rest] show ?case by simp
qed

lemma new_epochs_state_induct:
  assumes "new_epochs api es self w = (res, self', w')"
    and "Q self w"
    and step: "\<And>e s v r s' v'. Q s v \<Longrightarrow> new_epoch api e s v = (r, s', v') \<Longrightarrow> Q s' v'"
  shows "Q self' w'"
  using assms(1,2)
proof (induction es arbitrary: self w)
  case Nil
  then show ?case by simp
next
  case (Cons e es)
  obtain r self1 w1 where ne: "new_epoch api e self w = (r, self1, w1)"
    by (cases "new_epoch api e self w") auto
  from step [OF Cons.prems(2) ne] have q1: "Q self1 w1" .
  show ?case
  proof (cases r)
    case (Inl err)
    with ne Cons.prems(1) have "self' = self1" "w' = w1" by simp_all
    with q1 show ?thesis by simp
  next
    case (Inr u1)
    with ne Cons.prems(1) have "new_epochs api es self1 w1 = (res, self', w')" by simp
    from Cons.IH [OF this q1] show ?thesis .
  qed
qed

lemma new_epoch_frame:
  assumes "new_epoch api e self w = (res, self', w')"
  shows "\<exists>S H. self' = self\<lparr>sampled_archs := S, history := H\<rparr>"
    and "length (heap w) \<le> length (heap w')"
    and "\<And>b. b < length (heap w) \<Longrightarrow> heap w' ! b = heap w ! b"
proof -
  show "\<exists>S H. self' = self\<lparr>sampled_archs := S, history := H\<rparr>"
  proof (cases res)
    case (Inl err)
    with assms have "self' = self" by (simp add: new_epoch_Inl)
    then have "self' = self\<lparr>sampled_archs := sampled_archs self, history := history self\<rparr>"
      by simp
    then show ?thesis by blast
  next
    case (Inr u)
    with assms new_epoch_Inr [of api e self w u self' w'] show ?thesis by blast
  qed
next
  have "length (heap w) \<le> length (heap w') \<and> (\<forall>b < length (heap w). heap w' ! b = heap w ! b)"
  proof (cases "search_space self")
    case None
    with assms show ?thesis by (simp add: new_epoch_def)
  next
    case (Some ss)
    show ?thesis
    proof (cases "scope self")
      case None
      with Some assms show ?thesis by (simp add: new_epoch_def)
    next
      case (Some sc)
      obtain r1 w1 where s: "sample_random_architecture api ss sc w = (r1, w1)"
        by (cases "sample_random_architecture api ss sc w") auto
      from assms \<open>search_space self = Some ss\<close> Some s have "w' = w1"
        by (auto simp: new_epoch_def split: sum.splits)
      with sample_random_architecture_heap(1,2) [OF s] show ?thesis by simp
    qed
  qed
  then show "length (heap w) \<le> length (heap w')"
    and "\<And>b. b < length (heap w) \<Longrightarrow> heap w' ! b = heap w ! b" by simp_all
qed

lemma recorded_new_epoch:
  assumes "recorded api self w" and ne: "new_epoch api e self w = (res, self', w')"
  shows "recorded api self' w'"
proof (cases res)
  case (Inl err)
  with ne have same: "self' = self" by (simp add: new_epoch_Inl)
  from new_epoch_frame(2,3) [OF ne] assms(1) show ?thesis
    unfolding recorded_def same by (auto simp: less_le_trans)
next
  case (Inr u)
  from new_epoch_Inr [OF ne [unfolded Inr]] obtain ss sc a acc where
    s: "sample_random_architecture api ss sc w = (Inr a, w')"
    and q: "query api (heap w' ! a) (performance_metric self) (dataset self) = Inr acc"
    and self': "self' = self\<lparr>sampled_archs := sampled_archs self @ [\<lparr>arch = a, accuracy = acc\<rparr>],
                        history := update_history (history self) \<lparr>arch = a, accuracy = acc\<rparr>\<rparr>"
    by blast
  from sample_random_architecture_heap [OF s] have
    len: "length (heap w') = Suc (length (heap w))" and a: "a = length (heap w)"
    by simp_all
  from new_epoch_frame(3) [OF ne] have old: "\<And>b. b < length (heap w) \<Longrightarrow> heap w' ! b = heap w ! b" .
  show ?thesis
    unfolding recorded_def
  proof
    fix m assume "m \<in> set (sampled_archs self')"
    with self' consider "m \<in> set (sampled_archs self)" | "m = \<lparr>arch = a, accuracy = acc\<rparr>"
      by auto
    then show "arch m < length (heap w') \<and>
        query api (heap w' ! arch m) (performance_metric self') (dataset self') = Inr (accuracy m)"
    proof cases
      case 1
      with assms(1) have "arch m < length (heap w)"
        and "query api (heap w ! arch m) (performance_metric self) (dataset self) = Inr (accuracy m)"
        by (auto simp: recorded_def)
      with old [of "arch m"] len self' show ?thesis by simp
    next
      case 2
      with q a len self' show ?thesis by simp
    qed
  qed
qed

lemma adapt_search_space_Inl:
  assumes "adapt_search_space api self space sc w = (Inl err, self', w')"
  shows "err = AssertionError \<and> \<not> QUERYABLE api (heap w ! space) \<and> self' = self \<and> w' = w"
  using assms by (auto simp: adapt_search_space_def clone_def split: if_splits)

lemma adapt_search_space_Inr:
  assumes "adapt_search_space api self space sc w = (Inr u, self', w')"
  shows "QUERYABLE api (heap w ! space)"
    and "w' = w\<lparr>heap := heap w @ [heap w ! space]\<rparr>"
    and "self' = self\<lparr>search_space := Some (length (heap w)),
                      scope := Some (if truthy sc then the sc
                                     else OPTIMIZER_SCOPE api (heap w' ! space))\<rparr>"
  using assms by (auto simp: adapt_search_space_def clone_def split: if_splits)

lemma random_search_cases:
  assumes "random_search api config wo lc gc space sc es w = (res, self, w')"
  shows "(res = Inl AssertionError \<and> self = RandomSearch_init config wo lc gc \<and> w' = w) \<or>
         (\<exists>self0 w1.
            adapt_search_space api (RandomSearch_init config wo lc gc) space sc w
              = (Inr (), self0, w1) \<and>
            new_epochs api es self0 w1 = (res, self, w'))"
proof -
  obtain r0 self0 w1 where
    ad: "adapt_search_space api (RandomSearch_init config wo lc gc) space sc w = (r0, self0, w1)"
    by (cases "adapt_search_space api (RandomSearch_init config wo lc gc) space sc w") auto
  show ?thesis
  proof (cases r0)
    case (Inl err)
    from adapt_search_space_Inl [OF ad [unfolded Inl]] ad Inl assms show ?thesis
      by (simp add: random_search_def)
  next
    case (Inr u0)
    with ad assms show ?thesis by (simp add: random_search_def)
  qed
qed

lemma new_epoch_pair:
  assumes "new_epoch api e self w = (res, self', w')"
  shows "(sampled_archs self' = sampled_archs self \<and> history self' = history self) \<or>
         (\<exists>m. sampled_archs self' = sampled_archs self @ [m] \<and>
              history self' = update_history (history self) m)"
proof (cases res)
  case (Inl err)
  with assms new_epoch_Inl [of api e self w err self' w'] show ?thesis by simp
next
  case (Inr u)
  with assms new_epoch_Inr [of api e self w u self' w'] show ?thesis by auto
qed

lemma random_search_invariant:
  assumes run: "random_search api config wo lc gc space sc es w = (res, self, w')"
    and base: "P [] []"
    and step: "\<And>S H m. P S H \<Longrightarrow> P (S @ [m]) (update_history H m)"
  shows "P (sampled_archs self) (history self)"
proof -
  from random_search_cases [OF run] show ?thesis
  proof
    assume "res = Inl AssertionError \<and> self = RandomSearch_init config wo lc gc \<and> w' = w"
    with base show ?thesis by (simp add: RandomSearch_init_def)
  next
    assume "\<exists>self0 w1.
            adapt_search_space api (RandomSearch_init config wo lc gc) space sc w
              = (Inr (), self0, w1) \<and>
            new_epochs api es self0 w1 = (res, self, w')"
    then obtain self0 w1 where
      ad: "adapt_search_space api (RandomSearch_init config wo lc gc) space sc w = (Inr (), self0, w1)"
      and ne: "new_epochs api es self0 w1 = (res, self, w')"
      by blast
    from adapt_search_space_Inr(3) [OF ad] base
    have start: "P (sampled_archs self0) (history self0)"
      by (simp add: RandomSearch_init_def)
    show ?thesis
    proof (rule new_epochs_state_induct [OF ne, where Q = "\<lambda>s v. P (sampled_archs s) (history s)"])
      show "P (sampled_archs self0) (history self0)" by (rule start)
    next
      fix e s v r s' v'
      assume "P (sampled_archs s) (history s)" and "new_epoch api e s v = (r, s', v')"
      with new_epoch_pair [of api e s v r s' v'] step [of "sampled_archs s" "history s"]
      show "P (sampled_archs s') (history s')" by auto
    qed
  qed
qed

lemma random_search_count:
  assumes run: "random_search api config wo lc gc space sc es w = (Inr u, self, w')"
  shows "length (sampled_archs self) = length es"
proof -
  from random_search_cases [OF run] obtain self0 w1 where
    ad: "adapt_search_space api (RandomSearch_init config wo lc gc) space sc w = (Inr (), self0, w1)"
    and ne: "new_epochs api es self0 w1 = (Inr u, self, w')"
    by blast
  from adapt_search_space_Inr(3) [OF ad] have "sampled_archs self0 = []"
    by (simp add: RandomSearch_init_def)
  with new_epochs_count [OF ne] show ?thesis by simp
qed

lemma demo_run_split:
  "random_search one_edge_api \<lparr>config_dataset = ()\<rparr> () () None 0 None [0..<n] demo_world =
     (fst (demo_run n), fst (snd (demo_run n)), snd (snd (demo_run n)))"
  by (simp add: demo_run_def)

lemma demo_run_3_ok: "fst (demo_run 3) = Inr ()"
  by code_simp

lemma demo_run_101_ok: "fst (demo_run 101) = Inr ()"
  by code_simp

subsection \<open>The history is bounded\<close>

text \<open>
  Claim C3. After a search whose \<open>new_epoch\<close> calls sampled \<open>n\<close> models the history has
  \<open>min n 100\<close> entries, so never more than 100; \<open>n\<close> is the number of calls when none of
  them raised. An insertion into a history of 100 entries leaves it at 100 entries,
  whether it replaces an entry or not.
\<close>

theorem history_bounded:
  fixes api :: "('g, 'o, 'd, 'r::linorder py_float) search_space_api"
  assumes run: "random_search api config wo lc gc space sc es w = (res, self, w')"
  shows "length (history self) = min (length (sampled_archs self)) 100 \<and>
         length (history self) \<le> 100 \<and>
         (\<forall>u. res = Inr u \<longrightarrow> length (history self) = min (length es) 100) \<and>
         (\<forall>child. length (history self) = 100 \<longrightarrow>
            length (update_history (history self) child) = 100)"
proof -
  have len: "length (history self) = min (length (sampled_archs self)) 100"
  proof (rule random_search_invariant [OF run, where P = "\<lambda>S H. length H = min (length S) 100"])
    show "length [] = min (length []) 100" by simp
  next
    fix S H :: "'r py_float model list" and m
    assume "length H = min (length S) 100"
    then show "length (update_history H m) = min (length (S @ [m])) 100"
      by (simp add: length_update_history)
  qed
  have succ: "\<forall>u. res = Inr u \<longrightarrow> length (history self) = min (length es) 100"
  proof (intro allI impI)
    fix u assume "res = Inr u"
    with run have "length (sampled_archs self) = length es"
      by (simp add: random_search_count)
    with len show "length (history self) = min (length es) 100" by simp
  qed
  have full: "\<forall>child. length (history self) = 100 \<longrightarrow>
            length (update_history (history self) child) = 100"
    by (simp add: length_update_history)
  from len succ full show ?thesis by simp
qed

theorem history_bounded_witness:
  "fst (demo_run 101) = Inr () \<and>
   length (history (fst (snd (demo_run 101)))) = 100 \<and>
   length (update_history (history (fst (snd (demo_run 101)))) \<lparr>arch = 0, accuracy = Num 7\<rparr>) = 100"
proof -
  have run: "random_search one_edge_api \<lparr>config_dataset = ()\<rparr> () () None 0 None [0..<101] demo_world =
     (Inr (), fst (snd (demo_run 101)), snd (snd (demo_run 101)))"
    using demo_run_split [of 101] by (simp add: demo_run_101_ok)
  from history_bounded [OF run] have
    "length (history (fst (snd (demo_run 101)))) = min (length [0..<(101::nat)]) 100"
    and "length (history (fst (snd (demo_run 101)))) = 100 \<longrightarrow>
          length (update_history (history (fst (snd (demo_run 101)))) \<lparr>arch = 0, accuracy = Num 7\<rparr>) = 100"
    by blast+
  then show ?thesis by (simp add: demo_run_101_ok)
qed

lemma random_search_recorded:
  assumes run: "random_search api config wo lc gc space sc es w = (res, self, w')"
  shows "recorded api self w' \<and> performance_metric self = VAL_ACCURACY \<and>
         dataset self = config_dataset config"
proof -
  from random_search_cases [OF run] show ?thesis
  proof
    assume "res = Inl AssertionError \<and> self = RandomSearch_init config wo lc gc \<and> w' = w"
    then show ?thesis by (simp add: RandomSearch_init_def recorded_def)
  next
    assume "\<exists>self0 w1.
            adapt_search_space api (RandomSearch_init config wo lc gc) space sc w
              = (Inr (), self0, w1) \<and>
            new_epochs api es self0 w1 = (res, self, w')"
    then obtain self0 w1 where
      ad: "adapt_search_space api (RandomSearch_init config wo lc gc) space sc w = (Inr (), self0, w1)"
      and ne: "new_epochs api es self0 w1 = (res, self, w')"
      by blast
    from adapt_search_space_Inr(3) [OF ad]
    have start: "recorded api self0 w1 \<and> performance_metric self0 = VAL_ACCURACY \<and>
         dataset self0 = config_dataset config"
      by (simp add: RandomSearch_init_def recorded_def)
    show ?thesis
    proof (rule new_epochs_state_induct [OF ne,
          where Q = "\<lambda>s v. recorded api s v \<and> performance_metric s = VAL_ACCURACY \<and>
                       dataset s = config_dataset config"])
      show "recorded api self0 w1 \<and> performance_metric self0 = VAL_ACCURACY \<and>
         dataset self0 = config_dataset config" by (rule start)
    next
      fix e s v r s' v'
      assume q: "recorded api s v \<and> performance_metric s = VAL_ACCURACY \<and>
                dataset s = config_dataset config"
        and ne1: "new_epoch api e s v = (r, s', v')"
      from q recorded_new_epoch [OF _ ne1] have "recorded api s' v'" by simp
      moreover from new_epoch_frame(1) [OF ne1] q
      have "performance_metric s' = VAL_ACCURACY \<and> dataset s' = config_dataset config"
        by auto
      ultimately show "recorded api s' v' \<and> performance_metric s' = VAL_ACCURACY \<and>
                dataset s' = config_dataset config" by simp
    qed
  qed
qed

subsection \<open>The final architecture\<close>

lemma nan_run_split:
  "random_search nan_edge_api \<lparr>config_dataset = ()\<rparr> () () None 0 None [0..<n]
       \<lparr>heap = [three_ops, no_ops], rng = draws\<rparr> =
     (fst (nan_run draws n), fst (snd (nan_run draws n)), snd (snd (nan_run draws n)))"
  by (simp add: nan_run_def)

lemma nan_first_sampled:
  "sampled_archs (fst (snd (nan_run nan_first_draws 3))) =
     [\<lparr>arch = 3, accuracy = NaN\<rparr>, \<lparr>arch = 4, accuracy = Num 2\<rparr>, \<lparr>arch = 5, accuracy = Num 1\<rparr>]"
  by code_simp








subsection \<open>The best model stays in the history\<close>

lemma replace_first_all_nan:
  "\<forall>p \<in> set hist. accuracy p = NaN \<Longrightarrow> replace_first child hist = hist"
proof (induction hist)
  case Nil
  show ?case by simp
next
  case (Cons x xs)
  then have "\<not> py_gt (accuracy child) (accuracy x)"
    by (cases "accuracy child") simp_all
  with Cons show ?case by simp
qed

lemma py_gt_le_trans: "py_le b q \<Longrightarrow> py_gt m q \<Longrightarrow> py_gt m b"
  by (cases b; cases q; cases m) auto

lemma best_of_numbers:
  assumes "\<exists>m \<in> set S. accuracy m \<noteq> NaN"
  shows "\<exists>b. best_of b S"
proof -
  let ?N = "filter (\<lambda>m. accuracy m \<noteq> NaN) S"
  from assms have ne: "?N \<noteq> []" by (auto simp: filter_empty_conv)
  then have "hd ?N \<in> set ?N" by (rule hd_in_set)
  then have "hd ?N \<in> {m \<in> set S. accuracy m \<noteq> NaN}" by (simp only: set_filter)
  then have first: "accuracy (hd ?N) \<noteq> NaN" by blast
  from max_by_accuracy_first_or_best [OF ne] first obtain b where "best_of b ?N"
    by blast
  then have b: "b \<in> set S" "accuracy b \<noteq> NaN"
    and upper: "\<forall>m' \<in> set ?N. \<not> py_gt (accuracy m') (accuracy b)"
    by (auto simp: best_of_def)
  have "\<forall>m' \<in> set S. \<not> py_gt (accuracy m') (accuracy b)"
  proof
    fix m' assume m': "m' \<in> set S"
    show "\<not> py_gt (accuracy m') (accuracy b)"
    proof (cases "accuracy m' = NaN")
      case True
      then show ?thesis by simp
    next
      case False
      with m' have "m' \<in> set ?N" by simp
      with upper show ?thesis by blast
    qed
  qed
  with b show ?thesis by (auto simp: best_of_def)
qed

lemma history_keeps_numbers:
  fixes S H :: "'r::linorder py_float model list"
  assumes inv: "set H \<subseteq> set S \<and> length H = min (length S) 100 \<and>
      (length S \<le> 100 \<longrightarrow> H = S) \<and>
      ((\<exists>p \<in> set H. accuracy p \<noteq> NaN) \<longrightarrow>
         (\<forall>m \<in> set S. accuracy m \<noteq> NaN \<longrightarrow> (\<exists>q \<in> set H. py_le (accuracy m) (accuracy q)))) \<and>
      ((\<exists>m \<in> set (take 100 S). accuracy m \<noteq> NaN) \<longrightarrow> (\<exists>p \<in> set H. accuracy p \<noteq> NaN))"
  shows "set (update_history H c) \<subseteq> set (S @ [c]) \<and>
      length (update_history H c) = min (length (S @ [c])) 100 \<and>
      (length (S @ [c]) \<le> 100 \<longrightarrow> update_history H c = S @ [c]) \<and>
      ((\<exists>p \<in> set (update_history H c). accuracy p \<noteq> NaN) \<longrightarrow>
         (\<forall>m \<in> set (S @ [c]). accuracy m \<noteq> NaN \<longrightarrow>
            (\<exists>q \<in> set (update_history H c). py_le (accuracy m) (accuracy q)))) \<and>
      ((\<exists>m \<in> set (take 100 (S @ [c])). accuracy m \<noteq> NaN) \<longrightarrow>
         (\<exists>p \<in> set (update_history H c). accuracy p \<noteq> NaN))"
proof -
  from inv have sub: "set H \<subseteq> set S" and len: "length H = min (length S) 100"
    and small: "length S \<le> 100 \<longrightarrow> H = S"
    and dom: "(\<exists>p \<in> set H. accuracy p \<noteq> NaN) \<longrightarrow>
         (\<forall>m \<in> set S. accuracy m \<noteq> NaN \<longrightarrow> (\<exists>q \<in> set H. py_le (accuracy m) (accuracy q)))"
    and num: "(\<exists>m \<in> set (take 100 S). accuracy m \<noteq> NaN) \<longrightarrow> (\<exists>p \<in> set H. accuracy p \<noteq> NaN)"
    by simp_all
  let ?H' = "update_history H c"
  have "set ?H' \<subseteq> insert c (set H)"
    using set_mset_mono [OF mset_update_history [of H H c]] by simp
  with sub have c1: "set ?H' \<subseteq> set (S @ [c])" by auto
  from len have c2: "length ?H' = min (length (S @ [c])) 100"
    by (simp add: length_update_history)
  have c3: "length (S @ [c]) \<le> 100 \<longrightarrow> ?H' = S @ [c]"
  proof
    assume "length (S @ [c]) \<le> 100"
    then have "length S < 100" by simp
    with small have "H = S" by simp
    with \<open>length S < 100\<close> show "?H' = S @ [c]" by (simp add: update_history_def)
  qed
  have c4: "(\<exists>p \<in> set ?H'. accuracy p \<noteq> NaN) \<longrightarrow>
         (\<forall>m \<in> set (S @ [c]). accuracy m \<noteq> NaN \<longrightarrow>
            (\<exists>q \<in> set ?H'. py_le (accuracy m) (accuracy q)))"
  proof (intro impI ballI)
    fix m
    assume some: "\<exists>p \<in> set ?H'. accuracy p \<noteq> NaN"
      and m: "m \<in> set (S @ [c])" and mn: "accuracy m \<noteq> NaN"
    show "\<exists>q \<in> set ?H'. py_le (accuracy m) (accuracy q)"
    proof (cases "length H < 100")
      case True
      with len have "length S < 100" by simp
      with small have "H = S" by simp
      with True have "?H' = S @ [c]" by (simp add: update_history_def)
      with m mn show ?thesis by (auto intro: py_le_refl)
    next
      case False
      have hn: "\<exists>p \<in> set H. accuracy p \<noteq> NaN"
      proof (rule ccontr)
        assume "\<not> (\<exists>p \<in> set H. accuracy p \<noteq> NaN)"
        then have all: "\<forall>p \<in> set H. accuracy p = NaN" by simp
        with False have "?H' = H" by (simp add: update_history_def replace_first_all_nan)
        with all some show False by simp
      qed
      from m consider "m \<in> set S" | "m = c" by auto
      then show ?thesis
      proof cases
        case 1
        with dom hn mn obtain q where q: "q \<in> set H" "py_le (accuracy m) (accuracy q)"
          by blast
        then have "accuracy q \<noteq> NaN" by (simp add: py_le_not_NaN)
        from update_history_dominates [OF q(1) this, of c] obtain q' where
          "q' \<in> set ?H'" "py_le (accuracy q) (accuracy q')" by blast
        with q(2) show ?thesis by (auto intro: py_le_trans)
      next
        case 2
        with mn hn update_history_covers_child [of c H] show ?thesis by simp
      qed
    qed
  qed
  have c5: "(\<exists>m \<in> set (take 100 (S @ [c])). accuracy m \<noteq> NaN) \<longrightarrow>
         (\<exists>p \<in> set ?H'. accuracy p \<noteq> NaN)"
  proof
    assume "\<exists>m \<in> set (take 100 (S @ [c])). accuracy m \<noteq> NaN"
    then obtain m where m: "m \<in> set (take 100 (S @ [c]))" "accuracy m \<noteq> NaN" by blast
    show "\<exists>p \<in> set ?H'. accuracy p \<noteq> NaN"
    proof (cases "m \<in> set (take 100 S)")
      case True
      with m(2) num obtain p where p: "p \<in> set H" "accuracy p \<noteq> NaN" by blast
      from update_history_dominates [OF p, of c] obtain q where
        "q \<in> set ?H'" "py_le (accuracy p) (accuracy q)" by blast
      then show ?thesis by (auto dest: py_le_not_NaN)
    next
      case False
      with m(1) have "m \<in> set (take (100 - length S) [c])" by simp
      then have "m = c" and "length S < 100"
        by (cases "100 - length S"; auto)+
      with small have "?H' = S @ [c]" by (simp add: update_history_def)
      with \<open>m = c\<close> m(2) show ?thesis by auto
    qed
  qed
  from c1 c2 c3 c4 c5 show ?thesis by blast
qed

lemma nan_hundred_ok: "fst (nan_run nan_hundred_draws 101) = Inr ()"
  by code_simp

lemma nan_hundred_sampled:
  "map accuracy (sampled_archs (fst (snd (nan_run nan_hundred_draws 101)))) =
     replicate 100 NaN @ [Num 2]"
  by code_simp

lemma nan_hundred_history:
  "map accuracy (history (fst (snd (nan_run nan_hundred_draws 101)))) = replicate 100 NaN"
  by code_simp

text \<open>
  Claim C5 says that the history always contains a model whose accuracy is the maximum
  over all sampled models. It does not when the first hundred accuracies are all
  \<open>NaN\<close>: the full history then holds only \<open>NaN\<close> entries, no child compares \<open>>\<close>
  any of them, and the scan drops the later model of accuracy 2.
\<close>

theorem best_dropped_from_history:
  "fst (nan_run nan_hundred_draws 101) = Inr () \<and>
   map accuracy (sampled_archs (fst (snd (nan_run nan_hundred_draws 101)))) =
     replicate 100 NaN @ [Num 2] \<and>
   map accuracy (history (fst (snd (nan_run nan_hundred_draws 101)))) = replicate 100 NaN \<and>
   \<not> (\<exists>p \<in> set (history (fst (snd (nan_run nan_hundred_draws 101)))).
         best_of p (sampled_archs (fst (snd (nan_run nan_hundred_draws 101)))))"
proof -
  let ?H = "history (fst (snd (nan_run nan_hundred_draws 101)))"
  have "\<not> (\<exists>p \<in> set ?H. accuracy p \<noteq> NaN)"
  proof
    assume "\<exists>p \<in> set ?H. accuracy p \<noteq> NaN"
    then obtain p where "p \<in> set ?H" and p: "accuracy p \<noteq> NaN" by blast
    then have "accuracy p \<in> set (map accuracy ?H)" by simp
    then have "accuracy p = NaN" by (simp add: nan_hundred_history)
    with p show False by simp
  qed
  then have "\<not> (\<exists>p \<in> set ?H.
       best_of p (sampled_archs (fst (snd (nan_run nan_hundred_draws 101)))))"
    by (auto simp: best_of_def)
  with nan_hundred_ok nan_hundred_sampled nan_hundred_history show ?thesis by simp
qed

text \<open>
  Claim C5, amended. After every \<open>new_epoch\<close> call the history contains a best model
  of all models sampled so far (its accuracy is a number and no sampled accuracy is
  greater), provided the accuracy of at least one of the first 100 sampled models is
  not \<open>NaN\<close>: the scan never evicts a best model for a worse one.
\<close>

theorem best_stays_in_history:
  fixes api :: "('g, 'o, 'd, 'r::linorder py_float) search_space_api"
  assumes run: "random_search api config wo lc gc space sc es w = (res, self, w')"
    and number: "\<exists>m \<in> set (take 100 (sampled_archs self)). accuracy m \<noteq> NaN"
  shows "\<exists>p \<in> set (history self). best_of p (sampled_archs self)"
proof -
  let ?S = "sampled_archs self" and ?H = "history self"
  have inv: "set ?H \<subseteq> set ?S \<and> length ?H = min (length ?S) 100 \<and>
      (length ?S \<le> 100 \<longrightarrow> ?H = ?S) \<and>
      ((\<exists>p \<in> set ?H. accuracy p \<noteq> NaN) \<longrightarrow>
         (\<forall>m \<in> set ?S. accuracy m \<noteq> NaN \<longrightarrow> (\<exists>q \<in> set ?H. py_le (accuracy m) (accuracy q)))) \<and>
      ((\<exists>m \<in> set (take 100 ?S). accuracy m \<noteq> NaN) \<longrightarrow> (\<exists>p \<in> set ?H. accuracy p \<noteq> NaN))"
  proof (rule random_search_invariant [OF run,
        where P = "\<lambda>S H. set H \<subseteq> set S \<and> length H = min (length S) 100 \<and>
      (length S \<le> 100 \<longrightarrow> H = S) \<and>
      ((\<exists>p \<in> set H. accuracy p \<noteq> NaN) \<longrightarrow>
         (\<forall>m \<in> set S. accuracy m \<noteq> NaN \<longrightarrow> (\<exists>q \<in> set H. py_le (accuracy m) (accuracy q)))) \<and>
      ((\<exists>m \<in> set (take 100 S). accuracy m \<noteq> NaN) \<longrightarrow> (\<exists>p \<in> set H. accuracy p \<noteq> NaN))"])
    show "set [] \<subseteq> set ([] :: 'r py_float model list) \<and>
      length ([] :: 'r py_float model list) = min (length ([] :: 'r py_float model list)) 100 \<and>
      (length ([] :: 'r py_float model list) \<le> 100 \<longrightarrow> ([] :: 'r py_float model list) = []) \<and>
      ((\<exists>p \<in> set ([] :: 'r py_float model list). accuracy p \<noteq> NaN) \<longrightarrow>
         (\<forall>m \<in> set ([] :: 'r py_float model list). accuracy m \<noteq> NaN \<longrightarrow>
            (\<exists>q \<in> set ([] :: 'r py_float model list). py_le (accuracy m) (accuracy q)))) \<and>
      ((\<exists>m \<in> set (take 100 ([] :: 'r py_float model list)). accuracy m \<noteq> NaN) \<longrightarrow>
         (\<exists>p \<in> set ([] :: 'r py_float model list). accuracy p \<noteq> NaN))"
      by simp
  next
    fix S H :: "'r py_float model list" and m
    assume "set H \<subseteq> set S \<and> length H = min (length S) 100 \<and>
      (length S \<le> 100 \<longrightarrow> H = S) \<and>
      ((\<exists>p \<in> set H. accuracy p \<noteq> NaN) \<longrightarrow>
         (\<forall>m \<in> set S. accuracy m \<noteq> NaN \<longrightarrow> (\<exists>q \<in> set H. py_le (accuracy m) (accuracy q)))) \<and>
      ((\<exists>m \<in> set (take 100 S). accuracy m \<noteq> NaN) \<longrightarrow> (\<exists>p \<in> set H. accuracy p \<noteq> NaN))"
    then show "set (update_history H m) \<subseteq> set (S @ [m]) \<and>
      length (update_history H m) = min (length (S @ [m])) 100 \<and>
      (length (S @ [m]) \<le> 100 \<longrightarrow> update_history H m = S @ [m]) \<and>
      ((\<exists>p \<in> set (update_history H m). accuracy p \<noteq> NaN) \<longrightarrow>
         (\<forall>m' \<in> set (S @ [m]). accuracy m' \<noteq> NaN \<longrightarrow>
            (\<exists>q \<in> set (update_history H m). py_le (accuracy m') (accuracy q)))) \<and>
      ((\<exists>m' \<in> set (take 100 (S @ [m])). accuracy m' \<noteq> NaN) \<longrightarrow>
         (\<exists>p \<in> set (update_history H m). accuracy p \<noteq> NaN))"
      by (rule history_keeps_numbers)
  qed
  from number have "\<exists>m \<in> set ?S. accuracy m \<noteq> NaN" by (auto dest: in_set_takeD)
  from best_of_numbers [OF this] obtain b where b: "best_of b ?S" by blast
  then have bS: "b \<in> set ?S" and bn: "accuracy b \<noteq> NaN"
    and bu: "\<forall>m' \<in> set ?S. \<not> py_gt (accuracy m') (accuracy b)"
    by (simp_all add: best_of_def)
  from inv number have "\<exists>p \<in> set ?H. accuracy p \<noteq> NaN" by blast
  with inv bS bn obtain q where q: "q \<in> set ?H" "py_le (accuracy b) (accuracy q)" by blast
  from inv q(1) have qS: "q \<in> set ?S" by auto
  from q(2) have qn: "accuracy q \<noteq> NaN" by (simp add: py_le_not_NaN)
  have "\<forall>m' \<in> set ?S. \<not> py_gt (accuracy m') (accuracy q)"
  proof
    fix m' assume m': "m' \<in> set ?S"
    show "\<not> py_gt (accuracy m') (accuracy q)"
    proof
      assume "py_gt (accuracy m') (accuracy q)"
      with q(2) have "py_gt (accuracy m') (accuracy b)" by (rule py_gt_le_trans)
      with bu m' show False by blast
    qed
  qed
  with qS qn have "best_of q ?S" by (simp add: best_of_def)
  with q(1) show ?thesis by blast
qed

lemma demo_run_101_number:
  "\<exists>m \<in> set (take 100 (sampled_archs (fst (snd (demo_run 101))))). accuracy m \<noteq> NaN"
  by code_simp

lemma nan_first_number:
  "\<exists>m \<in> set (take 100 (sampled_archs (fst (snd (nan_run nan_first_draws 3))))). accuracy m \<noteq> NaN"
  by (simp add: nan_first_sampled)

theorem best_stays_in_history_witness:
  "(\<exists>m \<in> set (take 100 (sampled_archs (fst (snd (demo_run 101))))). accuracy m \<noteq> NaN) \<and>
   (\<exists>p \<in> set (history (fst (snd (demo_run 101)))).
      best_of p (sampled_archs (fst (snd (demo_run 101))))) \<and>
   (\<exists>m \<in> set (take 100 (sampled_archs (fst (snd (nan_run nan_first_draws 3))))).
      accuracy m \<noteq> NaN) \<and>
   (\<exists>p \<in> set (history (fst (snd (nan_run nan_first_draws 3)))).
      best_of p (sampled_archs (fst (snd (nan_run nan_first_draws 3)))))"
  using best_stays_in_history [OF demo_run_split [of 101] demo_run_101_number]
    best_stays_in_history [OF nan_run_split [of 3 nan_first_draws] nan_first_number]
    demo_run_101_number nan_first_number
  by simp

lemma demo_history_101:
  "history (fst (snd (demo_run 101))) =
     \<lparr>arch = 103, accuracy = Num 2\<rparr> # \<lparr>arch = 4, accuracy = Num 0\<rparr> #
     map (\<lambda>i. \<lparr>arch = i, accuracy = Num 1\<rparr>) [5..<103]"
  by code_simp

lemma demo_sampled_101:
  "sampled_archs (fst (snd (demo_run 101))) =
     \<lparr>arch = 3, accuracy = Num 1\<rparr> # \<lparr>arch = 4, accuracy = Num 0\<rparr> #
     map (\<lambda>i. \<lparr>arch = i, accuracy = Num 1\<rparr>) [5..<103] @ [\<lparr>arch = 103, accuracy = Num 2\<rparr>]"
  by code_simp

subsection \<open>What the history holds\<close>

text \<open>
  Claim C2 says that the history is the 100 most accurate sampled models once 100 or
  more have been sampled. It is not: the scan overwrites the first entry that is worse
  than the new model, not the worst one. After 101 epochs over the one-edge search
  space with accuracies \<open>1, 0, 1, \<dots>, 1, 2\<close> the history still holds the model of
  accuracy 0 and has lost the first model of accuracy 1.
\<close>

theorem history_not_top_k:
  "fst (demo_run 101) = Inr () \<and>
   \<not> top_k_of 100 (history (fst (snd (demo_run 101)))) (sampled_archs (fst (snd (demo_run 101))))"
proof -
  let ?rest = "map (\<lambda>i. \<lparr>arch = i, accuracy = Num (1::nat)\<rparr>) [5..<103]"
  let ?a = "\<lparr>arch = 3, accuracy = Num (1::nat)\<rparr>"
  let ?b = "\<lparr>arch = 4, accuracy = Num (0::nat)\<rparr>"
  let ?c = "\<lparr>arch = 103, accuracy = Num (2::nat)\<rparr>"
  have diff: "mset (?a # ?b # ?rest @ [?c]) - mset (?c # ?b # ?rest) = {#?a#}"
    by simp
  have "?b \<in> set (?c # ?b # ?rest)" by simp
  moreover have "?a \<in># mset (?a # ?b # ?rest @ [?c]) - mset (?c # ?b # ?rest)"
    unfolding diff by simp
  moreover have "py_gt (accuracy ?a) (accuracy ?b)" by simp
  ultimately have "\<not> top_k_of 100 (?c # ?b # ?rest) (?a # ?b # ?rest @ [?c])"
    unfolding top_k_of_def by blast
  then show ?thesis
    by (simp only: demo_history_101 demo_sampled_101 demo_run_101_ok simp_thms)
qed

lemma replace_first_at:
  "i < length hist \<Longrightarrow> py_gt (accuracy child) (accuracy (hist ! i)) \<Longrightarrow>
   (\<forall>j < i. \<not> py_gt (accuracy child) (accuracy (hist ! j))) \<Longrightarrow>
   replace_first child hist = hist[i := child]"
proof (induction hist arbitrary: i)
  case Nil
  then show ?case by simp
next
  case (Cons p ps)
  show ?case
  proof (cases i)
    case 0
    with Cons.prems show ?thesis by simp
  next
    case (Suc k)
    with Cons.prems(3) have first: "\<not> py_gt (accuracy child) (accuracy p)" by auto
    from Suc Cons.prems have "k < length ps" "py_gt (accuracy child) (accuracy (ps ! k))"
      "\<forall>j < k. \<not> py_gt (accuracy child) (accuracy (ps ! j))" by auto
    then have "replace_first child ps = ps[k := child]" by (rule Cons.IH)
    with first Suc show ?thesis by simp
  qed
qed

lemma replace_first_none:
  "(\<forall>p \<in> set hist. \<not> py_gt (accuracy child) (accuracy p)) \<Longrightarrow> replace_first child hist = hist"
  by (induction hist) auto

text \<open>
  Claim C2, amended. The history is a bounded selection of the sampled models: its
  models form a sub-multiset of the sampled models with \<open>min n 100\<close> entries, and it is
  the list of all sampled models while \<open>n \<le> 100\<close>. An insertion into the full history
  overwrites the first entry, in list order, whose accuracy is strictly below the new
  model's, and changes nothing when there is no such entry.
\<close>

theorem history_bounded_selection:
  fixes api :: "('g, 'o, 'd, 'r::linorder py_float) search_space_api"
  assumes run: "random_search api config wo lc gc space sc es w = (res, self, w')"
  shows "mset (history self) \<subseteq># mset (sampled_archs self) \<and>
         length (history self) = min (length (sampled_archs self)) 100 \<and>
         (length (sampled_archs self) \<le> 100 \<longrightarrow> history self = sampled_archs self) \<and>
         (\<forall>child. length (history self) = 100 \<longrightarrow>
            (\<forall>i < 100.
               py_gt (accuracy child) (accuracy (history self ! i)) \<and>
               (\<forall>j < i. \<not> py_gt (accuracy child) (accuracy (history self ! j))) \<longrightarrow>
               update_history (history self) child = (history self)[i := child]) \<and>
            ((\<forall>p \<in> set (history self). \<not> py_gt (accuracy child) (accuracy p)) \<longrightarrow>
               update_history (history self) child = history self))"
proof -
  have inv: "mset (history self) \<subseteq># mset (sampled_archs self) \<and>
             length (history self) = min (length (sampled_archs self)) 100 \<and>
             (length (sampled_archs self) \<le> 100 \<longrightarrow> history self = sampled_archs self)"
  proof (rule random_search_invariant [OF run,
        where P = "\<lambda>S H. mset H \<subseteq># mset S \<and> length H = min (length S) 100 \<and>
                         (length S \<le> 100 \<longrightarrow> H = S)"])
    show "mset [] \<subseteq># mset ([] :: 'r py_float model list) \<and> length ([] :: 'r py_float model list) = min (length ([] :: 'r py_float model list)) 100 \<and>
          (length ([] :: 'r py_float model list) \<le> 100 \<longrightarrow> ([] :: 'r py_float model list) = [])"
      by simp
  next
    fix S H :: "'r py_float model list" and m
    assume ih: "mset H \<subseteq># mset S \<and> length H = min (length S) 100 \<and> (length S \<le> 100 \<longrightarrow> H = S)"
    from ih have "mset H \<subseteq># mset S" by simp
    then have "mset (update_history H m) \<subseteq># mset (S @ [m])"
      by (rule mset_update_history)
    moreover from ih have "length (update_history H m) = min (length (S @ [m])) 100"
      by (simp add: length_update_history)
    moreover have "length (S @ [m]) \<le> 100 \<longrightarrow> update_history H m = S @ [m]"
    proof
      assume "length (S @ [m]) \<le> 100"
      then have "length S < 100" by simp
      with ih have "H = S" by simp
      with \<open>length S < 100\<close> show "update_history H m = S @ [m]"
        by (simp add: update_history_def)
    qed
    ultimately show "mset (update_history H m) \<subseteq># mset (S @ [m]) \<and>
        length (update_history H m) = min (length (S @ [m])) 100 \<and>
        (length (S @ [m]) \<le> 100 \<longrightarrow> update_history H m = S @ [m])"
      by simp
  qed
  have scan: "\<forall>child. length (history self) = 100 \<longrightarrow>
            (\<forall>i < 100.
               py_gt (accuracy child) (accuracy (history self ! i)) \<and>
               (\<forall>j < i. \<not> py_gt (accuracy child) (accuracy (history self ! j))) \<longrightarrow>
               update_history (history self) child = (history self)[i := child]) \<and>
            ((\<forall>p \<in> set (history self). \<not> py_gt (accuracy child) (accuracy p)) \<longrightarrow>
               update_history (history self) child = history self)"
    by (simp add: update_history_def replace_first_at replace_first_none)
  from inv scan show ?thesis by simp
qed

lemma demo_sampled_3_length: "length (sampled_archs (fst (snd (demo_run 3)))) \<le> 100"
  by code_simp

theorem history_bounded_selection_witness:
  "fst (demo_run 101) = Inr () \<and>
   mset (history (fst (snd (demo_run 101)))) \<subseteq># mset (sampled_archs (fst (snd (demo_run 101)))) \<and>
   length (history (fst (snd (demo_run 101)))) = 100 \<and>
   update_history (history (fst (snd (demo_run 101)))) \<lparr>arch = 0, accuracy = Num 1\<rparr> =
     (history (fst (snd (demo_run 101))))[1 := \<lparr>arch = 0, accuracy = Num 1\<rparr>] \<and>
   update_history (history (fst (snd (demo_run 101)))) \<lparr>arch = 0, accuracy = Num 0\<rparr> =
     history (fst (snd (demo_run 101))) \<and>
   history (fst (snd (demo_run 3))) = sampled_archs (fst (snd (demo_run 3)))"
proof -
  let ?H = "history (fst (snd (demo_run 101)))"
  let ?S = "sampled_archs (fst (snd (demo_run 101)))"
  note big = history_bounded_selection [OF demo_run_split [of 101]]
  note small = history_bounded_selection [OF demo_run_split [of 3]]
  from big have sub: "mset ?H \<subseteq># mset ?S" by blast
  have "length ?S = 101" by (simp add: demo_sampled_101)
  with big have len: "length ?H = 100" by simp
  have h1: "py_gt (accuracy \<lparr>arch = 0, accuracy = Num (1::nat)\<rparr>) (accuracy (?H ! 1))"
    by (simp add: demo_history_101)
  have h0: "\<forall>j < 1. \<not> py_gt (accuracy \<lparr>arch = 0, accuracy = Num (1::nat)\<rparr>) (accuracy (?H ! j))"
    by (simp add: demo_history_101)
  from big len have
    "\<forall>i < 100.
       py_gt (accuracy \<lparr>arch = 0, accuracy = Num (1::nat)\<rparr>) (accuracy (?H ! i)) \<and>
       (\<forall>j < i. \<not> py_gt (accuracy \<lparr>arch = 0, accuracy = Num (1::nat)\<rparr>) (accuracy (?H ! j))) \<longrightarrow>
       update_history ?H \<lparr>arch = 0, accuracy = Num 1\<rparr> = ?H[i := \<lparr>arch = 0, accuracy = Num 1\<rparr>]"
    by blast
  with h1 h0 have at: "update_history ?H \<lparr>arch = 0, accuracy = Num 1\<rparr> = ?H[1 := \<lparr>arch = 0, accuracy = Num 1\<rparr>]"
    by simp
  from big len have
    "(\<forall>p \<in> set ?H. \<not> py_gt (accuracy \<lparr>arch = 0, accuracy = Num (0::nat)\<rparr>) (accuracy p)) \<longrightarrow>
       update_history ?H \<lparr>arch = 0, accuracy = Num 0\<rparr> = ?H"
    by blast
  moreover have "\<forall>p \<in> set ?H. \<not> py_gt (accuracy \<lparr>arch = 0, accuracy = Num (0::nat)\<rparr>) (accuracy p)"
  proof
    fix p assume "p \<in> set ?H"
    then show "\<not> py_gt (accuracy \<lparr>arch = 0, accuracy = Num (0::nat)\<rparr>) (accuracy p)"
      by (cases "accuracy p") simp_all
  qed
  ultimately have none: "update_history ?H \<lparr>arch = 0, accuracy = Num 0\<rparr> = ?H" by blast
  from small demo_sampled_3_length
  have eq3: "history (fst (snd (demo_run 3))) = sampled_archs (fst (snd (demo_run 3)))"
    by blast
  from sub len at none eq3 demo_run_101_ok show ?thesis by simp
qed

subsection \<open>The sampled index is in range\<close>

text \<open>
  Claim C10. Whenever \<open>add_sampled_op_index\<close> sets an index on an edge, the edge's
  \<open>op\<close> is a list and the index lies in \<open>[0, len(op))\<close>; so \<open>update_ops\<close> on that
  edge reads \<open>primitives[op_index]\<close> within bounds and installs that primitive.
\<close>

theorem sampled_op_index_in_bounds:
  assumes "add_sampled_op_index edge r = Inr (edge', r')"
  shows "\<exists>ops k.
           op edge = OpList ops \<and> op edge' = OpList ops \<and> op_index edge' = Some k \<and>
           0 \<le> k \<and> k < int (length ops) \<and>
           py_index ops k = Inr (ops ! nat k) \<and>
           update_ops edge' =
             Inr (edge'\<lparr>op := OpSingle (ops ! nat k), primitives := Some ops\<rparr>)"
proof (cases "op edge")
  case (OpSingle x)
  with assms show ?thesis by (simp add: add_sampled_op_index_def)
next
  case (OpList ops)
  show ?thesis
  proof (cases "length ops = 0")
    case True
    with OpList assms show ?thesis by (simp add: add_sampled_op_index_def randint_def)
  next
    case False
    define k where "k = int (r 0 mod length ops)"
    from False OpList assms have edge': "edge' = edge\<lparr>op_index := Some k\<rparr>"
      by (auto simp: add_sampled_op_index_def randint_def k_def)
    from False have range: "0 \<le> k" "k < int (length ops)"
      by (simp_all add: k_def)
    then have idx: "py_index ops k = Inr (ops ! nat k)"
      by (simp add: py_index_def)
    from edge' OpList idx have
      "update_ops edge' = Inr (edge'\<lparr>op := OpSingle (ops ! nat k), primitives := Some ops\<rparr>)"
      by (simp add: update_ops_def)
    with edge' OpList range idx show ?thesis by auto
  qed
qed

lemma three_ops_sampled:
  "add_sampled_op_index three_ops skewed_draws =
     Inr (three_ops\<lparr>op_index := Some 1\<rparr>, \<lambda>i. skewed_draws (Suc i))"
  by (simp add: add_sampled_op_index_def randint_def three_ops_def skewed_draws_def)

theorem sampled_op_index_in_bounds_witness:
  "add_sampled_op_index three_ops skewed_draws =
     Inr (three_ops\<lparr>op_index := Some 1\<rparr>, \<lambda>i. skewed_draws (Suc i)) \<and>
   update_ops (three_ops\<lparr>op_index := Some 1\<rparr>) =
     Inr \<lparr>op = OpSingle 1, op_index = Some 1, primitives = Some [0, 1, 2]\<rparr>"
proof -
  from sampled_op_index_in_bounds [OF three_ops_sampled] obtain ops k where
    "op three_ops = OpList ops" and "op_index (three_ops\<lparr>op_index := Some 1\<rparr>) = Some k"
    and "update_ops (three_ops\<lparr>op_index := Some 1\<rparr>) =
           Inr (three_ops\<lparr>op_index := Some 1, op := OpSingle (ops ! nat k), primitives := Some ops\<rparr>)"
    by auto
  then have "update_ops (three_ops\<lparr>op_index := Some 1\<rparr>) =
     Inr \<lparr>op = OpSingle 1, op_index = Some 1, primitives = Some [0, 1, 2]\<rparr>"
    by (auto simp: three_ops_def)
  with three_ops_sampled show ?thesis by simp
qed

subsection \<open>Nothing sampled yet\<close>

text \<open>
  Claim C8. While \<open>sampled_archs\<close> is empty, as it is before the first \<open>new_epoch\<close>
  call, \<open>get_final_architecture\<close> raises the \<open>ValueError\<close> of \<open>max\<close> over an empty
  sequence, and so do \<open>train_statistics\<close> and \<open>test_statistics\<close>.
\<close>

theorem statistics_fail_before_sampling:
  fixes api :: "('g, 'o, 'd, 'r::linorder py_float) search_space_api"
  assumes "sampled_archs self = []"
  shows "get_final_architecture self = Inl ValueError \<and>
         train_statistics api self w = Inl ValueError \<and>
         test_statistics api self w = Inl ValueError"
  using assms
  by (simp add: get_final_architecture_def train_statistics_def test_statistics_def)

theorem statistics_fail_before_sampling_witness:
  "sampled_archs (RandomSearch_init \<lparr>config_dataset = ()\<rparr> () () (None :: unit option)
      :: (unit, unit, unit, nat py_float) RandomSearch) = [] \<and>
   get_final_architecture (RandomSearch_init \<lparr>config_dataset = ()\<rparr> () () (None :: unit option)
      :: (unit, unit, unit, nat py_float) RandomSearch) = Inl ValueError \<and>
   train_statistics one_edge_api (RandomSearch_init \<lparr>config_dataset = ()\<rparr> () () (None :: unit option))
      demo_world = Inl ValueError \<and>
   test_statistics one_edge_api (RandomSearch_init \<lparr>config_dataset = ()\<rparr> () () (None :: unit option))
      demo_world = Inl ValueError \<and>
   fst (demo_run 0) = Inr () \<and>
   get_final_architecture (fst (snd (demo_run 0))) = Inl ValueError \<and>
   train_statistics one_edge_api (fst (snd (demo_run 0))) (snd (snd (demo_run 0))) = Inl ValueError \<and>
   test_statistics one_edge_api (fst (snd (demo_run 0))) (snd (snd (demo_run 0))) = Inl ValueError"
proof -
  have init: "sampled_archs (RandomSearch_init \<lparr>config_dataset = ()\<rparr> () () (None :: unit option)
      :: (unit, unit, unit, nat py_float) RandomSearch) = []"
    by (simp add: RandomSearch_init_def)
  have ok: "fst (demo_run 0) = Inr ()" by code_simp
  have adapted: "sampled_archs (fst (snd (demo_run 0))) = []" by code_simp
  from statistics_fail_before_sampling [OF init, of one_edge_api demo_world]
    statistics_fail_before_sampling [OF adapted, of one_edge_api "snd (snd (demo_run 0))"]
    init ok
  show ?thesis by simp
qed

subsection \<open>Adapting the search space\<close>

text \<open>
  Claim C6. \<open>adapt_search_space\<close> raises \<open>AssertionError\<close> exactly when the search
  space's \<open>QUERYABLE\<close> is false, and raises nothing else. On failure the optimizer is
  left as it was, so a new optimizer still has neither \<open>search_space\<close> nor \<open>scope\<close>.
  When \<open>QUERYABLE\<close> is true it stores a clone (a new object with the search space's
  contents) and sets \<open>scope\<close> to the given scope when that is truthy and to the search
  space's \<open>OPTIMIZER_SCOPE\<close> otherwise.
\<close>

theorem adapt_search_space_outcome:
  fixes api :: "('g, 'o, 'd, 'v) search_space_api"
    and self :: "('t, 'c, 'd, 'v) RandomSearch"
  shows "(fst (adapt_search_space api self space sc w) = Inl AssertionError)
           = (\<not> QUERYABLE api (heap w ! space)) \<and>
         (\<forall>err. fst (adapt_search_space api self space sc w) = Inl err \<longrightarrow> err = AssertionError) \<and>
         (\<not> QUERYABLE api (heap w ! space) \<longrightarrow>
            adapt_search_space api self space sc w = (Inl AssertionError, self, w) \<and>
            search_space (fst (snd (adapt_search_space api
               (RandomSearch_init config wo lc gc :: ('t, 'c, 'd, 'v) RandomSearch) space sc w))) = None \<and>
            scope (fst (snd (adapt_search_space api
               (RandomSearch_init config wo lc gc :: ('t, 'c, 'd, 'v) RandomSearch) space sc w))) = None) \<and>
         (QUERYABLE api (heap w ! space) \<longrightarrow> space < length (heap w) \<longrightarrow>
            adapt_search_space api self space sc w =
              (Inr (),
               self\<lparr>search_space := Some (length (heap w)),
                    scope := Some (if truthy sc then the sc
                                   else OPTIMIZER_SCOPE api (heap w ! space))\<rparr>,
               w\<lparr>heap := heap w @ [heap w ! space]\<rparr>) \<and>
            length (heap w) \<noteq> space \<and>
            (heap w @ [heap w ! space]) ! length (heap w) = heap w ! space)"
  by (simp add: adapt_search_space_def clone_def RandomSearch_init_def nth_append)

theorem adapt_search_space_outcome_witness:
  "QUERYABLE (one_edge_api :: (nat edge_data, nat, unit, nat py_float) search_space_api) (heap demo_world ! 0) \<and>
   adapt_search_space (one_edge_api :: (nat edge_data, nat, unit, nat py_float) search_space_api)
       (RandomSearch_init \<lparr>config_dataset = ()\<rparr> () () (None :: unit option)) 0 None demo_world =
     (Inr (),
      (RandomSearch_init \<lparr>config_dataset = ()\<rparr> () () None)
         \<lparr>search_space := Some 2, scope := Some (ScopeStr ''all'')\<rparr>,
      demo_world\<lparr>heap := [three_ops, no_ops, three_ops]\<rparr>) \<and>
   adapt_search_space (one_edge_api :: (nat edge_data, nat, unit, nat py_float) search_space_api)
       (RandomSearch_init \<lparr>config_dataset = ()\<rparr> () () (None :: unit option)) 0
       (Some (ScopeList [''cell''])) demo_world =
     (Inr (),
      (RandomSearch_init \<lparr>config_dataset = ()\<rparr> () () None)
         \<lparr>search_space := Some 2, scope := Some (ScopeList [''cell''])\<rparr>,
      demo_world\<lparr>heap := [three_ops, no_ops, three_ops]\<rparr>) \<and>
   adapt_search_space (one_edge_api :: (nat edge_data, nat, unit, nat py_float) search_space_api)
       (RandomSearch_init \<lparr>config_dataset = ()\<rparr> () () (None :: unit option)) 0
       (Some (ScopeStr [])) demo_world =
     (Inr (),
      (RandomSearch_init \<lparr>config_dataset = ()\<rparr> () () None)
         \<lparr>search_space := Some 2, scope := Some (ScopeStr ''all'')\<rparr>,
      demo_world\<lparr>heap := [three_ops, no_ops, three_ops]\<rparr>) \<and>
   \<not> QUERYABLE (one_edge_api :: (nat edge_data, nat, unit, nat py_float) search_space_api) (heap demo_world ! 1) \<and>
   adapt_search_space (one_edge_api :: (nat edge_data, nat, unit, nat py_float) search_space_api)
       (RandomSearch_init \<lparr>config_dataset = ()\<rparr> () () (None :: unit option)) 1 None demo_world =
     (Inl AssertionError, RandomSearch_init \<lparr>config_dataset = ()\<rparr> () () None, demo_world) \<and>
   search_space (RandomSearch_init \<lparr>config_dataset = ()\<rparr> () () (None :: unit option)
       :: (unit, unit, unit, nat py_float) RandomSearch) = None \<and>
   scope (RandomSearch_init \<lparr>config_dataset = ()\<rparr> () () (None :: unit option)
       :: (unit, unit, unit, nat py_float) RandomSearch) = None"
proof -
  let ?api = "one_edge_api :: (nat edge_data, nat, unit, nat py_float) search_space_api"
  let ?init = "RandomSearch_init \<lparr>config_dataset = ()\<rparr> () () (None :: unit option)
       :: (unit, unit, unit, nat py_float) RandomSearch"
  have q0: "QUERYABLE ?api (heap demo_world ! 0)"
    by (simp add: one_edge_api_def demo_world_def three_ops_def)
  have q1: "\<not> QUERYABLE ?api (heap demo_world ! 1)"
    by (simp add: one_edge_api_def demo_world_def no_ops_def)
  have v0: "0 < length (heap demo_world)" by (simp add: demo_world_def)
  have scope0: "OPTIMIZER_SCOPE ?api (heap demo_world ! 0) = ScopeStr ''all''"
    by (simp add: one_edge_api_def)
  have heap0: "heap demo_world @ [heap demo_world ! 0] = [three_ops, no_ops, three_ops]"
    and len0: "length (heap demo_world) = 2"
    by (simp_all add: demo_world_def)
  note a = adapt_search_space_outcome [of ?api ?init 0 None demo_world "\<lparr>config_dataset = ()\<rparr>" "()" "()" None]
  note b = adapt_search_space_outcome [of ?api ?init 0 "Some (ScopeList [''cell''])" demo_world
      "\<lparr>config_dataset = ()\<rparr>" "()" "()" None]
  note c = adapt_search_space_outcome [of ?api ?init 0 "Some (ScopeStr [])" demo_world
      "\<lparr>config_dataset = ()\<rparr>" "()" "()" None]
  note d = adapt_search_space_outcome [of ?api ?init 1 None demo_world "\<lparr>config_dataset = ()\<rparr>" "()" "()" None]
  from a q0 v0 have ra: "adapt_search_space ?api ?init 0 None demo_world =
     (Inr (), ?init\<lparr>search_space := Some 2, scope := Some (ScopeStr ''all'')\<rparr>,
      demo_world\<lparr>heap := [three_ops, no_ops, three_ops]\<rparr>)"
    by (simp add: scope0 heap0 len0)
  from b q0 v0 have rb: "adapt_search_space ?api ?init 0 (Some (ScopeList [''cell''])) demo_world =
     (Inr (), ?init\<lparr>search_space := Some 2, scope := Some (ScopeList [''cell''])\<rparr>,
      demo_world\<lparr>heap := [three_ops, no_ops, three_ops]\<rparr>)"
    by (simp add: scope0 heap0 len0)
  from c q0 v0 have rc: "adapt_search_space ?api ?init 0 (Some (ScopeStr [])) demo_world =
     (Inr (), ?init\<lparr>search_space := Some 2, scope := Some (ScopeStr ''all'')\<rparr>,
      demo_world\<lparr>heap := [three_ops, no_ops, three_ops]\<rparr>)"
    by (simp add: scope0 heap0 len0)
  from d q1 have rd: "adapt_search_space ?api ?init 1 None demo_world =
     (Inl AssertionError, ?init, demo_world)"
    by simp
  have unset: "search_space ?init = None" "scope ?init = None"
    by (simp_all add: RandomSearch_init_def)
  from q0 q1 ra rb rc rd unset show ?thesis by simp
qed

lemma new_epochs_heap:
  assumes "new_epochs api es self w = (res, self', w')"
  shows "length (heap w) \<le> length (heap w') \<and> (\<forall>b < length (heap w). heap w' ! b = heap w ! b)"
proof (rule new_epochs_state_induct [OF assms,
      where Q = "\<lambda>s v. length (heap w) \<le> length (heap v) \<and>
                   (\<forall>b < length (heap w). heap v ! b = heap w ! b)"])
  show "length (heap w) \<le> length (heap w) \<and> (\<forall>b < length (heap w). heap w ! b = heap w ! b)"
    by simp
next
  fix e s v r s' v'
  assume q: "length (heap w) \<le> length (heap v) \<and> (\<forall>b < length (heap w). heap v ! b = heap w ! b)"
    and ne: "new_epoch api e s v = (r, s', v')"
  from new_epoch_frame(2,3) [OF ne] q
  show "length (heap w) \<le> length (heap v') \<and> (\<forall>b < length (heap w). heap v' ! b = heap w ! b)"
    by auto
qed

lemma new_epochs_attributes:
  assumes "new_epochs api es self w = (res, self', w')"
  shows "\<exists>S H. self' = self\<lparr>sampled_archs := S, history := H\<rparr>"
proof (rule new_epochs_state_induct [OF assms,
      where Q = "\<lambda>s v. \<exists>S H. s = self\<lparr>sampled_archs := S, history := H\<rparr>"])
  have "self = self\<lparr>sampled_archs := sampled_archs self, history := history self\<rparr>" by simp
  then show "\<exists>S H. self = self\<lparr>sampled_archs := S, history := H\<rparr>" by blast
next
  fix e s v r s' v'
  assume "\<exists>S H. s = self\<lparr>sampled_archs := S, history := H\<rparr>"
    and ne: "new_epoch api e s v = (r, s', v')"
  then obtain S H where s: "s = self\<lparr>sampled_archs := S, history := H\<rparr>" by blast
  from new_epoch_frame(1) [OF ne] obtain S' H' where
    "s' = s\<lparr>sampled_archs := S', history := H'\<rparr>" by blast
  with s have "s' = self\<lparr>sampled_archs := S', history := H'\<rparr>" by simp
  then show "\<exists>S H. s' = self\<lparr>sampled_archs := S, history := H\<rparr>" by blast
qed

lemma random_search_heap:
  assumes run: "random_search api config wo lc gc space sc es w = (res, self, w')"
  shows "length (heap w) \<le> length (heap w') \<and> (\<forall>b < length (heap w). heap w' ! b = heap w ! b)"
proof -
  from random_search_cases [OF run] show ?thesis
  proof
    assume "res = Inl AssertionError \<and> self = RandomSearch_init config wo lc gc \<and> w' = w"
    then show ?thesis by simp
  next
    assume "\<exists>self0 w1.
            adapt_search_space api (RandomSearch_init config wo lc gc) space sc w
              = (Inr (), self0, w1) \<and>
            new_epochs api es self0 w1 = (res, self, w')"
    then obtain self0 w1 where
      ad: "adapt_search_space api (RandomSearch_init config wo lc gc) space sc w = (Inr (), self0, w1)"
      and ne: "new_epochs api es self0 w1 = (res, self, w')"
      by blast
    from adapt_search_space_Inr(2) [OF ad] have
      "length (heap w) \<le> length (heap w1) \<and> (\<forall>b < length (heap w). heap w1 ! b = heap w ! b)"
      by (simp add: nth_append)
    with new_epochs_heap [OF ne] show ?thesis by auto
  qed
qed

lemma random_search_reference:
  assumes run: "random_search api config wo lc gc space sc es w = (res, self, w')"
  shows "search_space self = None \<or> search_space self = Some (length (heap w))"
proof -
  from random_search_cases [OF run] show ?thesis
  proof
    assume "res = Inl AssertionError \<and> self = RandomSearch_init config wo lc gc \<and> w' = w"
    then show ?thesis by (simp add: RandomSearch_init_def)
  next
    assume "\<exists>self0 w1.
            adapt_search_space api (RandomSearch_init config wo lc gc) space sc w
              = (Inr (), self0, w1) \<and>
            new_epochs api es self0 w1 = (res, self, w')"
    then obtain self0 w1 where
      ad: "adapt_search_space api (RandomSearch_init config wo lc gc) space sc w = (Inr (), self0, w1)"
      and ne: "new_epochs api es self0 w1 = (res, self, w')"
      by blast
    from new_epochs_attributes [OF ne] adapt_search_space_Inr(3) [OF ad]
    show ?thesis by auto
  qed
qed

subsection \<open>The caller's search space is left alone\<close>

text \<open>
  Claim C9. \<open>sample_random_architecture\<close> changes no object that existed before the
  call, in particular not its \<open>search_space\<close> argument: what it returns is a new
  object. \<open>adapt_search_space\<close> likewise stores a new object and leaves the given one
  unchanged, and so does a whole search: construction, \<open>adapt_search_space\<close> and any
  number of \<open>new_epoch\<close> calls.
\<close>

theorem search_space_not_mutated:
  fixes api :: "('g, 'o, 'd, 'r::linorder py_float) search_space_api"
  assumes valid: "ss < length (heap w)"
  shows "(sample_random_architecture api ss sc w = (res1, w1) \<longrightarrow>
            heap w1 ! ss = heap w ! ss \<and>
            (\<forall>b < length (heap w). heap w1 ! b = heap w ! b) \<and>
            (\<forall>a. res1 = Inr a \<longrightarrow> a \<noteq> ss \<and> a = length (heap w))) \<and>
         (adapt_search_space api self ss sco w = (res2, self2, w2) \<longrightarrow>
            heap w2 ! ss = heap w ! ss \<and>
            (\<forall>b < length (heap w). heap w2 ! b = heap w ! b) \<and>
            (\<forall>u. res2 = Inr u \<longrightarrow> search_space self2 = Some (length (heap w)) \<and>
                  search_space self2 \<noteq> Some ss)) \<and>
         (random_search api config wo lc gc ss sco es w = (res3, self3, w3) \<longrightarrow>
            heap w3 ! ss = heap w ! ss \<and>
            (\<forall>b < length (heap w). heap w3 ! b = heap w ! b) \<and>
            search_space self3 \<noteq> Some ss)"
proof (intro conjI impI)
  assume s: "sample_random_architecture api ss sc w = (res1, w1)"
  from sample_random_architecture_heap(2) [OF s] valid
  show "heap w1 ! ss = heap w ! ss" by simp
  from sample_random_architecture_heap(2) [OF s]
  show "\<forall>b < length (heap w). heap w1 ! b = heap w ! b" by simp
  from sample_random_architecture_heap(3) [OF s] valid
  show "\<forall>a. res1 = Inr a \<longrightarrow> a \<noteq> ss \<and> a = length (heap w)" by auto
next
  assume ad: "adapt_search_space api self ss sco w = (res2, self2, w2)"
  have frame: "\<forall>b < length (heap w). heap w2 ! b = heap w ! b"
  proof (cases res2)
    case (Inl err)
    with ad adapt_search_space_Inl [of api self ss sco w err self2 w2] show ?thesis by simp
  next
    case (Inr u)
    with ad adapt_search_space_Inr(2) [of api self ss sco w u self2 w2] show ?thesis
      by (simp add: nth_append)
  qed
  then show "\<forall>b < length (heap w). heap w2 ! b = heap w ! b" .
  from frame valid show "heap w2 ! ss = heap w ! ss" by simp
  show "\<forall>u. res2 = Inr u \<longrightarrow> search_space self2 = Some (length (heap w)) \<and>
                  search_space self2 \<noteq> Some ss"
  proof (intro allI impI)
    fix u assume "res2 = Inr u"
    with ad adapt_search_space_Inr(3) [of api self ss sco w u self2 w2]
    have "search_space self2 = Some (length (heap w))" by simp
    with valid show "search_space self2 = Some (length (heap w)) \<and> search_space self2 \<noteq> Some ss"
      by simp
  qed
next
  assume run: "random_search api config wo lc gc ss sco es w = (res3, self3, w3)"
  from random_search_heap [OF run] show "\<forall>b < length (heap w). heap w3 ! b = heap w ! b"
    by simp
  with valid show "heap w3 ! ss = heap w ! ss" by simp
  from random_search_reference [OF run] valid show "search_space self3 \<noteq> Some ss"
    by auto
qed

lemma demo_sample:
  "sample_random_architecture (one_edge_api :: (nat edge_data, nat, unit, nat py_float) search_space_api)
       0 (ScopeStr ''all'') demo_world =
     (Inr 2,
      \<lparr>heap = [three_ops, no_ops, \<lparr>op = OpSingle 1, op_index = Some 1, primitives = Some [0, 1, 2]\<rparr>],
       rng = \<lambda>i. skewed_draws (Suc i)\<rparr>)"
  by (simp add: sample_random_architecture_def clone_def one_edge_api_def demo_world_def
      three_ops_def add_sampled_op_index_def randint_def skewed_draws_def no_draw_def
      update_ops_def py_index_def)

theorem search_space_not_mutated_witness:
  "0 < length (heap demo_world) \<and>
   heap (snd (sample_random_architecture
      (one_edge_api :: (nat edge_data, nat, unit, nat py_float) search_space_api)
      0 (ScopeStr ''all'') demo_world)) ! 0 = heap demo_world ! 0 \<and>
   fst (sample_random_architecture
      (one_edge_api :: (nat edge_data, nat, unit, nat py_float) search_space_api)
      0 (ScopeStr ''all'') demo_world) = Inr 2 \<and>
   heap (snd (snd (adapt_search_space
      (one_edge_api :: (nat edge_data, nat, unit, nat py_float) search_space_api)
      (RandomSearch_init \<lparr>config_dataset = ()\<rparr> () () (None :: unit option)) 0 None demo_world))) ! 0
     = heap demo_world ! 0 \<and>
   heap (snd (snd (demo_run 3))) ! 0 = heap demo_world ! 0 \<and>
   search_space (fst (snd (demo_run 3))) \<noteq> Some 0"
proof -
  let ?api = "one_edge_api :: (nat edge_data, nat, unit, nat py_float) search_space_api"
  let ?init = "RandomSearch_init \<lparr>config_dataset = ()\<rparr> () () (None :: unit option)
       :: (unit, unit, unit, nat py_float) RandomSearch"
  have valid: "0 < length (heap demo_world)" by (simp add: demo_world_def)
  note all = search_space_not_mutated [OF valid,
      where api = ?api and sc = "ScopeStr ''all''"
        and ?res1.0 = "Inr 2"
        and ?w1.0 = "snd (sample_random_architecture ?api 0 (ScopeStr ''all'') demo_world)"
        and self = ?init and sco = None
        and ?res2.0 = "fst (adapt_search_space ?api ?init 0 None demo_world)"
        and ?self2.0 = "fst (snd (adapt_search_space ?api ?init 0 None demo_world))"
        and ?w2.0 = "snd (snd (adapt_search_space ?api ?init 0 None demo_world))"
        and config = "\<lparr>config_dataset = ()\<rparr>" and wo = "()" and lc = "()" and gc = None
        and es = "[0..<3]"
        and ?res3.0 = "fst (demo_run 3)" and ?self3.0 = "fst (snd (demo_run 3))"
        and ?w3.0 = "snd (snd (demo_run 3))"]
  have s: "sample_random_architecture ?api 0 (ScopeStr ''all'') demo_world =
      (Inr 2, snd (sample_random_architecture ?api 0 (ScopeStr ''all'') demo_world))"
    by (simp add: demo_sample)
  from all s demo_run_split [of 3] valid show ?thesis
    by (simp add: demo_sample)
qed

lemma new_epoch_heap_growth:
  assumes "new_epoch api e self w = (res, self', w')"
  shows "length (heap w') \<le> Suc (length (heap w))"
proof (cases "search_space self")
  case None
  with assms show ?thesis by (simp add: new_epoch_def)
next
  case (Some ss)
  show ?thesis
  proof (cases "scope self")
    case None
    with Some assms show ?thesis by (simp add: new_epoch_def)
  next
    case (Some sc)
    obtain r1 w1 where s: "sample_random_architecture api ss sc w = (r1, w1)"
      by (cases "sample_random_architecture api ss sc w") auto
    from assms \<open>search_space self = Some ss\<close> Some s have "w' = w1"
      by (auto simp: new_epoch_def split: sum.splits)
    with sample_random_architecture_heap(1) [OF s] show ?thesis by simp
  qed
qed

lemma new_epoch_world:
  assumes "new_epoch api e self w = (res, self', w')"
  shows "w' = w \<or>
         (\<exists>ss sc r. search_space self = Some ss \<and> scope self = Some sc \<and>
            sample_random_architecture api ss sc w = (r, w'))"
  using assms
  by (auto simp: new_epoch_def split: option.splits prod.splits sum.splits)

subsection \<open>An epoch trains nothing\<close>

text \<open>
  Claim C7. \<open>using_step_function\<close> is \<open>False\<close>, and a \<open>new_epoch\<close> call, whether it
  returns or raises, leaves the weight optimizer, the loss, the gradient clip and every
  other attribute but \<open>sampled_archs\<close> and \<open>history\<close> as they were; it either records
  one model or changes nothing in the optimizer. In the store it does nothing beyond
  the one sampling: every graph that existed before the call, so every architecture
  sampled earlier, keeps its contents, and at most one object is new.
\<close>

theorem new_epoch_trains_nothing:
  fixes api :: "('g, 'o, 'd, 'r::linorder py_float) search_space_api"
  assumes ne: "new_epoch api e self w = (res, self', w')"
  shows "using_step_function = False \<and>
         weight_optimizer self' = weight_optimizer self \<and>
         loss self' = loss self \<and>
         grad_clip self' = grad_clip self \<and>
         get_op_optimizer self' = get_op_optimizer self \<and>
         performance_metric self' = performance_metric self \<and>
         dataset self' = dataset self \<and>
         search_space self' = search_space self \<and>
         scope self' = scope self \<and>
         (self' = self \<or>
          (\<exists>m. self' = self\<lparr>sampled_archs := sampled_archs self @ [m],
                             history := update_history (history self) m\<rparr>)) \<and>
         (w' = w \<or>
          (\<exists>ss sc r. search_space self = Some ss \<and> scope self = Some sc \<and>
             sample_random_architecture api ss sc w = (r, w'))) \<and>
         (\<forall>b < length (heap w). heap w' ! b = heap w ! b) \<and>
         length (heap w') \<le> Suc (length (heap w))"
proof -
  from new_epoch_frame(1) [OF ne] obtain S H where
    self': "self' = self\<lparr>sampled_archs := S, history := H\<rparr>" by blast
  have step: "self' = self \<or>
          (\<exists>m. self' = self\<lparr>sampled_archs := sampled_archs self @ [m],
                             history := update_history (history self) m\<rparr>)"
  proof (cases res)
    case (Inl err)
    with ne new_epoch_Inl [of api e self w err self' w'] show ?thesis by simp
  next
    case (Inr u)
    with ne new_epoch_Inr [of api e self w u self' w'] show ?thesis by blast
  qed
  from new_epoch_frame(3) [OF ne]
  have old: "\<forall>b < length (heap w). heap w' ! b = heap w ! b" by simp
  from self' have attrs:
    "weight_optimizer self' = weight_optimizer self" "loss self' = loss self"
    "grad_clip self' = grad_clip self" "get_op_optimizer self' = get_op_optimizer self"
    "performance_metric self' = performance_metric self" "dataset self' = dataset self"
    "search_space self' = search_space self" "scope self' = scope self"
    by (simp_all add: get_op_optimizer_def)
  from attrs step new_epoch_world [OF ne] old new_epoch_heap_growth [OF ne] show ?thesis
    by (simp add: using_step_function_def)
qed

lemma demo_epoch_split:
  "new_epoch one_edge_api e (fst (snd (demo_run n))) (snd (snd (demo_run n))) =
     (fst (new_epoch one_edge_api e (fst (snd (demo_run n))) (snd (snd (demo_run n)))),
      fst (snd (new_epoch one_edge_api e (fst (snd (demo_run n))) (snd (snd (demo_run n))))),
      snd (snd (new_epoch one_edge_api e (fst (snd (demo_run n))) (snd (snd (demo_run n))))))"
  by simp

lemma demo_heap_3: "length (heap (snd (snd (demo_run 3)))) = 6"
  by code_simp

theorem new_epoch_trains_nothing_witness:
  "using_step_function = False \<and>
   weight_optimizer (fst (snd (new_epoch one_edge_api 3 (fst (snd (demo_run 3))) (snd (snd (demo_run 3))))))
     = weight_optimizer (fst (snd (demo_run 3))) \<and>
   search_space (fst (snd (new_epoch one_edge_api 3 (fst (snd (demo_run 3))) (snd (snd (demo_run 3))))))
     = search_space (fst (snd (demo_run 3))) \<and>
   heap (snd (snd (new_epoch one_edge_api 3 (fst (snd (demo_run 3))) (snd (snd (demo_run 3)))))) ! 5
     = heap (snd (snd (demo_run 3))) ! 5 \<and>
   heap (snd (snd (new_epoch one_edge_api 3 (fst (snd (demo_run 3))) (snd (snd (demo_run 3)))))) ! 0
     = heap (snd (snd (demo_run 3))) ! 0 \<and>
   length (heap (snd (snd (new_epoch one_edge_api 3 (fst (snd (demo_run 3))) (snd (snd (demo_run 3)))))))
     \<le> Suc (length (heap (snd (snd (demo_run 3)))))"
  using new_epoch_trains_nothing [OF demo_epoch_split [of 3 3]] demo_heap_3
  by simp

lemma random_search_success_state:
  fixes api :: "('g, 'o, 'd, 'r::linorder py_float) search_space_api"
  assumes run: "random_search api config wo lc gc space sc es w = (Inr u, self, w1)"
    and valid: "space < length (heap w)"
  shows "search_space self = Some (length (heap w))"
    and "scope self = Some (if truthy sc then the sc else OPTIMIZER_SCOPE api (heap w ! space))"
    and "heap w1 ! length (heap w) = heap w ! space"
proof -
  from random_search_cases [OF run] obtain self0 w0 where
    ad: "adapt_search_space api (RandomSearch_init config wo lc gc) space sc w = (Inr (), self0, w0)"
    and ne: "new_epochs api es self0 w0 = (Inr u, self, w1)"
    by blast
  from adapt_search_space_Inr(2) [OF ad] have w0: "w0 = w\<lparr>heap := heap w @ [heap w ! space]\<rparr>" .
  from w0 valid have at: "heap w0 ! space = heap w ! space" by (simp add: nth_append)
  from adapt_search_space_Inr(3) [OF ad] at have
    self0: "search_space self0 = Some (length (heap w))"
      "scope self0 = Some (if truthy sc then the sc else OPTIMIZER_SCOPE api (heap w ! space))"
    by simp_all
  from new_epochs_attributes [OF ne] obtain S H where
    "self = self0\<lparr>sampled_archs := S, history := H\<rparr>" by blast
  with self0 show "search_space self = Some (length (heap w))"
    and "scope self = Some (if truthy sc then the sc else OPTIMIZER_SCOPE api (heap w ! space))"
    by simp_all
  from w0 have "length (heap w) < length (heap w0)" by simp
  with new_epochs_heap [OF ne] have "heap w1 ! length (heap w) = heap w0 ! length (heap w)"
    by simp
  with w0 show "heap w1 ! length (heap w) = heap w ! space" by simp
qed

lemma sample_random_architecture_Inr:
  assumes "sample_random_architecture api ss sc w = (Inr a, w')"
  shows "\<exists>g2 g3 r3 g4 r4.
           prepare_discretization api (heap w ! ss) = (Inr (), g2) \<and>
           update_edges api add_sampled_op_index sc False g2 (rng w) = (Inr (), g3, r3) \<and>
           update_edges api (no_draw update_ops) sc True g3 r3 = (Inr (), g4, r4) \<and>
           a = length (heap w) \<and>
           w' = w\<lparr>heap := heap w @ [g4], rng := r4\<rparr>"
  using assms
  by (auto simp: sample_random_architecture_def clone_def split: prod.splits sum.splits)

lemma update_history_cases:
  assumes "length hist \<le> 100"
  shows "(length hist < 100 \<longrightarrow> update_history hist m = hist @ [m]) \<and>
         (length hist = 100 \<longrightarrow>
            (\<forall>i < 100.
               py_gt (accuracy m) (accuracy (hist ! i)) \<and>
               (\<forall>j < i. \<not> py_gt (accuracy m) (accuracy (hist ! j))) \<longrightarrow>
               update_history hist m = hist[i := m]) \<and>
            ((\<forall>p \<in> set hist. \<not> py_gt (accuracy m) (accuracy p)) \<longrightarrow>
               update_history hist m = hist))"
  by (simp add: update_history_def replace_first_at replace_first_none)

lemma edge_passes:
  assumes "op edge = OpList ops" and "ops \<noteq> []"
  shows "add_sampled_op_index edge r =
           Inr (edge\<lparr>op_index := Some (int (r 0 mod length ops))\<rparr>, \<lambda>i. r (Suc i)) \<and>
         r 0 mod length ops < length ops \<and>
         no_draw update_ops (edge\<lparr>op_index := Some (int (r 0 mod length ops))\<rparr>) r' =
           Inr (edge\<lparr>op_index := Some (int (r 0 mod length ops)),
                     op := OpSingle (ops ! (r 0 mod length ops)),
                     primitives := Some ops\<rparr>, r')"
  using assms
  by (simp add: add_sampled_op_index_def randint_def no_draw_def update_ops_def py_index_def)

lemma random_search_history_length:
  fixes api :: "('g, 'o, 'd, 'r::linorder py_float) search_space_api"
  assumes run: "random_search api config wo lc gc space sc es w = (res, self, w')"
  shows "length (history self) \<le> 100"
proof -
  have "length (history self) = min (length (sampled_archs self)) 100"
  proof (rule random_search_invariant [OF run, where P = "\<lambda>S H. length H = min (length S) 100"])
    show "length [] = min (length []) 100" by simp
  next
    fix S H :: "'r py_float model list" and m
    assume "length H = min (length S) 100"
    then show "length (update_history H m) = min (length (S @ [m])) 100"
      by (simp add: length_update_history)
  qed
  then show ?thesis by simp
qed

lemma demo_epoch_ok:
  "fst (new_epoch one_edge_api 3 (fst (snd (demo_run 3))) (snd (snd (demo_run 3)))) = Inr ()"
  by code_simp

lemma demo_draw_3: "rng (snd (snd (demo_run 3))) 0 = 1"
  by code_simp

lemma demo_history_3: "length (history (fst (snd (demo_run 3)))) = 3"
  by code_simp

lemma demo_epoch_101_ok:
  "fst (new_epoch one_edge_api 101 (fst (snd (demo_run 101))) (snd (snd (demo_run 101)))) = Inr ()"
  by code_simp

lemma demo_draw_101: "rng (snd (snd (demo_run 101))) 0 = 1"
  by code_simp

lemma demo_heap_101: "length (heap (snd (snd (demo_run 101)))) = 104"
  by code_simp

lemma one_edge_sampled:
  assumes p: "prepare_discretization (one_edge_api :: (nat edge_data, nat, unit, nat py_float) search_space_api)
                three_ops = (Inr (), g2)"
    and u1: "update_edges (one_edge_api :: (nat edge_data, nat, unit, nat py_float) search_space_api)
                add_sampled_op_index sc False g2 r = (Inr (), g3, r3)"
    and u2: "update_edges (one_edge_api :: (nat edge_data, nat, unit, nat py_float) search_space_api)
                (no_draw update_ops) sc True g3 r3 = (Inr (), g4, r4)"
    and q: "query (one_edge_api :: (nat edge_data, nat, unit, nat py_float) search_space_api)
                g4 VAL_ACCURACY () = Inr acc"
    and draw: "r 0 = 1"
  shows "g4 = \<lparr>op = OpSingle 1, op_index = Some 1, primitives = Some [0, 1, 2]\<rparr>"
    and "r4 = (\<lambda>i. r (Suc i))" and "acc = Num 1"
proof -
  from p have g2: "g2 = three_ops" by (simp add: one_edge_api_def)
  have a: "add_sampled_op_index three_ops r = Inr (three_ops\<lparr>op_index := Some 1\<rparr>, \<lambda>i. r (Suc i))"
    by (simp add: add_sampled_op_index_def randint_def three_ops_def draw)
  from u1 have g3: "g3 = three_ops\<lparr>op_index := Some 1\<rparr>" and r3: "r3 = (\<lambda>i. r (Suc i))"
    by (simp_all add: one_edge_api_def g2 a)
  have b: "no_draw update_ops (three_ops\<lparr>op_index := Some 1\<rparr>) r3 =
      Inr (\<lparr>op = OpSingle 1, op_index = Some 1, primitives = Some [0, 1, 2]\<rparr>, r3)"
    by (simp add: no_draw_def update_ops_def py_index_def three_ops_def)
  from u2 show g4: "g4 = \<lparr>op = OpSingle 1, op_index = Some 1, primitives = Some [0, 1, 2]\<rparr>"
    by (simp add: one_edge_api_def g3 b)
  from u2 have "r4 = r3" by (simp add: one_edge_api_def g3 b)
  with r3 show "r4 = (\<lambda>i. r (Suc i))" by simp
  from q g4 show "acc = Num 1" by (simp add: one_edge_api_def)
qed

subsection \<open>One epoch: sample, query, record\<close>

text \<open>
  Claim C4. After a search of \<open>n\<close> successful epochs \<open>sampled_archs\<close> has \<open>n\<close> entries.
  A further successful \<open>new_epoch\<close> does exactly this:
  \<^item> sample: it takes the clone that \<open>adapt_search_space\<close> stored (which still has the
    contents of the given search space), clones it into a new object, prepares the
    discretisation and runs the two \<open>update_edges\<close> passes with the stored scope, first
    \<open>add_sampled_op_index\<close> on shared edge data, then \<open>update_ops\<close> on private edge
    data; on an edge with candidate operations the first pass consumes one random
    draw and records an index below the number of candidates, the second installs
    the primitive at that index and keeps the list as \<open>primitives\<close>;
  \<^item> query: it asks \<open>VAL_ACCURACY\<close> for the new object on the configured dataset;
  \<^item> record: it appends the model (new object, accuracy) to \<open>sampled_archs\<close>, and
    puts it into the history: appended while the history has fewer than 100 entries,
    otherwise written over the first entry with a lower accuracy, if there is one.
  Nothing else in the optimizer changes, and the store only gains the new object.
\<close>

theorem new_epoch_steps:
  fixes api :: "('g, 'o, 'd, 'r::linorder py_float) search_space_api"
  assumes run: "random_search api config wo lc gc space sc es w = (Inr u, self, w1)"
    and valid: "space < length (heap w)"
    and ne: "new_epoch api e self w1 = (Inr u', self', w2)"
  shows "length (sampled_archs self) = length es \<and>
         search_space self = Some (length (heap w)) \<and>
         heap w1 ! length (heap w) = heap w ! space \<and>
         (\<exists>g2 g3 r3 g4 r4 acc.
            prepare_discretization api (heap w ! space) = (Inr (), g2) \<and>
            update_edges api add_sampled_op_index
              (if truthy sc then the sc else OPTIMIZER_SCOPE api (heap w ! space)) False g2 (rng w1)
              = (Inr (), g3, r3) \<and>
            update_edges api (no_draw update_ops)
              (if truthy sc then the sc else OPTIMIZER_SCOPE api (heap w ! space)) True g3 r3
              = (Inr (), g4, r4) \<and>
            w2 = w1\<lparr>heap := heap w1 @ [g4], rng := r4\<rparr> \<and>
            query api g4 VAL_ACCURACY (config_dataset config) = Inr acc \<and>
            sampled_archs self' =
              sampled_archs self @ [\<lparr>arch = length (heap w1), accuracy = acc\<rparr>] \<and>
            (length (history self) < 100 \<longrightarrow>
               history self' = history self @ [\<lparr>arch = length (heap w1), accuracy = acc\<rparr>]) \<and>
            (length (history self) = 100 \<longrightarrow>
               (\<forall>i < 100.
                  py_gt acc (accuracy (history self ! i)) \<and>
                  (\<forall>j < i. \<not> py_gt acc (accuracy (history self ! j))) \<longrightarrow>
                  history self' =
                    (history self)[i := \<lparr>arch = length (heap w1), accuracy = acc\<rparr>]) \<and>
               ((\<forall>p \<in> set (history self). \<not> py_gt acc (accuracy p)) \<longrightarrow>
                  history self' = history self)) \<and>
            length (history self) \<le> 100 \<and>
            self' = self\<lparr>sampled_archs := sampled_archs self', history := history self'\<rparr>) \<and>
         (\<forall>edge ops r r'. op edge = OpList ops \<and> ops \<noteq> [] \<longrightarrow>
            add_sampled_op_index edge r =
              Inr (edge\<lparr>op_index := Some (int (r 0 mod length ops))\<rparr>, \<lambda>i. r (Suc i)) \<and>
            r 0 mod length ops < length ops \<and>
            no_draw update_ops (edge\<lparr>op_index := Some (int (r 0 mod length ops))\<rparr>) r' =
              Inr (edge\<lparr>op_index := Some (int (r 0 mod length ops)),
                        op := OpSingle (ops ! (r 0 mod length ops)),
                        primitives := Some ops\<rparr>, r'))"
proof -
  let ?sc = "if truthy sc then the sc else OPTIMIZER_SCOPE api (heap w ! space)"
  from random_search_count [OF run] have n: "length (sampled_archs self) = length es" .
  from random_search_recorded [OF run] have
    metric: "performance_metric self = VAL_ACCURACY" and data: "dataset self = config_dataset config"
    by simp_all
  note st = random_search_success_state [OF run valid]
  from random_search_history_length [OF run] have hl: "length (history self) \<le> 100" .
  from new_epoch_Inr [OF ne] obtain ss sc' a acc where
    ss: "search_space self = Some ss" and sc': "scope self = Some sc'"
    and s: "sample_random_architecture api ss sc' w1 = (Inr a, w2)"
    and q: "query api (heap w2 ! a) (performance_metric self) (dataset self) = Inr acc"
    and self': "self' = self\<lparr>sampled_archs := sampled_archs self @ [\<lparr>arch = a, accuracy = acc\<rparr>],
                         history := update_history (history self) \<lparr>arch = a, accuracy = acc\<rparr>\<rparr>"
    by blast
  from ss st(1) have ss_eq: "ss = length (heap w)" by simp
  from sc' st(2) have sc_eq: "sc' = ?sc" by simp
  from sample_random_architecture_Inr [OF s] obtain g2 g3 r3 g4 r4 where
    p: "prepare_discretization api (heap w1 ! ss) = (Inr (), g2)"
    and u1: "update_edges api add_sampled_op_index sc' False g2 (rng w1) = (Inr (), g3, r3)"
    and u2: "update_edges api (no_draw update_ops) sc' True g3 r3 = (Inr (), g4, r4)"
    and a: "a = length (heap w1)"
    and w2: "w2 = w1\<lparr>heap := heap w1 @ [g4], rng := r4\<rparr>"
    by blast
  from p ss_eq st(3) have p': "prepare_discretization api (heap w ! space) = (Inr (), g2)"
    by simp
  from q a w2 metric data have q': "query api g4 VAL_ACCURACY (config_dataset config) = Inr acc"
    by simp
  let ?m = "\<lparr>arch = length (heap w1), accuracy = acc\<rparr>"
  from self' a have sa: "sampled_archs self' = sampled_archs self @ [?m]"
    and hi: "history self' = update_history (history self) ?m"
    by simp_all
  from self' a have rest: "self' = self\<lparr>sampled_archs := sampled_archs self', history := history self'\<rparr>"
    by simp
  from update_history_cases [OF hl, of ?m] hi have hc:
    "(length (history self) < 100 \<longrightarrow> history self' = history self @ [?m]) \<and>
     (length (history self) = 100 \<longrightarrow>
        (\<forall>i < 100.
           py_gt acc (accuracy (history self ! i)) \<and>
           (\<forall>j < i. \<not> py_gt acc (accuracy (history self ! j))) \<longrightarrow>
           history self' = (history self)[i := ?m]) \<and>
        ((\<forall>p \<in> set (history self). \<not> py_gt acc (accuracy p)) \<longrightarrow>
           history self' = history self))"
    by simp
  have epoch: "\<exists>g2 g3 r3 g4 r4 acc.
            prepare_discretization api (heap w ! space) = (Inr (), g2) \<and>
            update_edges api add_sampled_op_index ?sc False g2 (rng w1) = (Inr (), g3, r3) \<and>
            update_edges api (no_draw update_ops) ?sc True g3 r3 = (Inr (), g4, r4) \<and>
            w2 = w1\<lparr>heap := heap w1 @ [g4], rng := r4\<rparr> \<and>
            query api g4 VAL_ACCURACY (config_dataset config) = Inr acc \<and>
            sampled_archs self' =
              sampled_archs self @ [\<lparr>arch = length (heap w1), accuracy = acc\<rparr>] \<and>
            (length (history self) < 100 \<longrightarrow>
               history self' = history self @ [\<lparr>arch = length (heap w1), accuracy = acc\<rparr>]) \<and>
            (length (history self) = 100 \<longrightarrow>
               (\<forall>i < 100.
                  py_gt acc (accuracy (history self ! i)) \<and>
                  (\<forall>j < i. \<not> py_gt acc (accuracy (history self ! j))) \<longrightarrow>
                  history self' =
                    (history self)[i := \<lparr>arch = length (heap w1), accuracy = acc\<rparr>]) \<and>
               ((\<forall>p \<in> set (history self). \<not> py_gt acc (accuracy p)) \<longrightarrow>
                  history self' = history self)) \<and>
            length (history self) \<le> 100 \<and>
            self' = self\<lparr>sampled_archs := sampled_archs self', history := history self'\<rparr>"
    using p' u1 [unfolded sc_eq] u2 [unfolded sc_eq] w2 q' sa hc hl rest by blast
  have edges: "\<forall>edge ops r r'. op edge = OpList ops \<and> ops \<noteq> [] \<longrightarrow>
            add_sampled_op_index edge r =
              Inr (edge\<lparr>op_index := Some (int (r 0 mod length ops))\<rparr>, \<lambda>i. r (Suc i)) \<and>
            r 0 mod length ops < length ops \<and>
            no_draw update_ops (edge\<lparr>op_index := Some (int (r 0 mod length ops))\<rparr>) r' =
              Inr (edge\<lparr>op_index := Some (int (r 0 mod length ops)),
                        op := OpSingle (ops ! (r 0 mod length ops)),
                        primitives := Some ops\<rparr>, r')"
    using edge_passes by blast
  from n st(1) st(3) epoch edges show ?thesis by blast
qed

theorem new_epoch_steps_witness:
  "fst (demo_run 3) = Inr () \<and> 0 < length (heap demo_world) \<and>
   fst (new_epoch one_edge_api 3 (fst (snd (demo_run 3))) (snd (snd (demo_run 3)))) = Inr () \<and>
   length (sampled_archs (fst (snd (demo_run 3)))) = 3 \<and>
   search_space (fst (snd (demo_run 3))) = Some 2 \<and>
   heap (snd (snd (demo_run 3))) ! 2 = three_ops \<and>
   heap (snd (snd (new_epoch one_edge_api 3 (fst (snd (demo_run 3))) (snd (snd (demo_run 3)))))) =
     heap (snd (snd (demo_run 3))) @
       [\<lparr>op = OpSingle 1, op_index = Some 1, primitives = Some [0, 1, 2]\<rparr>] \<and>
   rng (snd (snd (new_epoch one_edge_api 3 (fst (snd (demo_run 3))) (snd (snd (demo_run 3)))))) =
     (\<lambda>i. rng (snd (snd (demo_run 3))) (Suc i)) \<and>
   sampled_archs (fst (snd (new_epoch one_edge_api 3 (fst (snd (demo_run 3))) (snd (snd (demo_run 3)))))) =
     sampled_archs (fst (snd (demo_run 3))) @ [\<lparr>arch = 6, accuracy = Num 1\<rparr>] \<and>
   history (fst (snd (new_epoch one_edge_api 3 (fst (snd (demo_run 3))) (snd (snd (demo_run 3)))))) =
     history (fst (snd (demo_run 3))) @ [\<lparr>arch = 6, accuracy = Num 1\<rparr>] \<and>
   fst (demo_run 101) = Inr () \<and>
   fst (new_epoch one_edge_api 101 (fst (snd (demo_run 101))) (snd (snd (demo_run 101)))) = Inr () \<and>
   sampled_archs (fst (snd (new_epoch one_edge_api 101 (fst (snd (demo_run 101)))
       (snd (snd (demo_run 101)))))) =
     sampled_archs (fst (snd (demo_run 101))) @ [\<lparr>arch = 104, accuracy = Num 1\<rparr>] \<and>
   history (fst (snd (new_epoch one_edge_api 101 (fst (snd (demo_run 101)))
       (snd (snd (demo_run 101)))))) =
     (history (fst (snd (demo_run 101))))[1 := \<lparr>arch = 104, accuracy = Num 1\<rparr>]"
proof -
  let ?api = "one_edge_api :: (nat edge_data, nat, unit, nat py_float) search_space_api"
  have valid: "0 < length (heap demo_world)" by (simp add: demo_world_def)
  have len: "length (heap demo_world) = 2" and first: "heap demo_world ! 0 = three_ops"
    by (simp_all add: demo_world_def)
  let ?X = "fst (snd (demo_run 3))" and ?W = "snd (snd (demo_run 3))"
  let ?X' = "fst (snd (new_epoch ?api 3 ?X ?W))" and ?W' = "snd (snd (new_epoch ?api 3 ?X ?W))"
  have run3: "random_search ?api \<lparr>config_dataset = ()\<rparr> () () None 0 None [0..<3] demo_world =
     (Inr (), ?X, ?W)"
    using demo_run_split [of 3] by (simp add: demo_run_3_ok)
  have ne3: "new_epoch ?api 3 ?X ?W = (Inr (), ?X', ?W')"
    using demo_epoch_split [of 3 3] by (simp add: demo_epoch_ok)
  note t3 = new_epoch_steps [OF run3 valid ne3]
  from t3 have "length (sampled_archs ?X) = length [0..<(3::nat)]" by (rule conjunct1)
  then have n3: "length (sampled_archs ?X) = 3" by simp
  from t3 [THEN conjunct2] have "search_space ?X = Some (length (heap demo_world))"
    by (rule conjunct1)
  then have ss3: "search_space ?X = Some 2" by (simp add: len)
  from t3 [THEN conjunct2, THEN conjunct2]
  have "heap ?W ! length (heap demo_world) = heap demo_world ! 0" by (rule conjunct1)
  then have clone3: "heap ?W ! 2 = three_ops" by (simp add: len first)
  from t3 [THEN conjunct2, THEN conjunct2, THEN conjunct2, THEN conjunct1]
  obtain g2 g3 r3 g4 r4 acc where
    p: "prepare_discretization ?api (heap demo_world ! 0) = (Inr (), g2)"
    and u1: "update_edges ?api add_sampled_op_index
               (if truthy None then the None else OPTIMIZER_SCOPE ?api (heap demo_world ! 0))
               False g2 (rng ?W) = (Inr (), g3, r3)"
    and u2: "update_edges ?api (no_draw update_ops)
               (if truthy None then the None else OPTIMIZER_SCOPE ?api (heap demo_world ! 0))
               True g3 r3 = (Inr (), g4, r4)"
    and w: "?W' = ?W\<lparr>heap := heap ?W @ [g4], rng := r4\<rparr>"
    and q: "query ?api g4 VAL_ACCURACY (config_dataset \<lparr>config_dataset = ()\<rparr>) = Inr acc"
    and sa: "sampled_archs ?X' = sampled_archs ?X @ [\<lparr>arch = length (heap ?W), accuracy = acc\<rparr>]"
    and room: "length (history ?X) < 100 \<longrightarrow>
                 history ?X' = history ?X @ [\<lparr>arch = length (heap ?W), accuracy = acc\<rparr>]"
    by blast
  from p first have p': "prepare_discretization ?api three_ops = (Inr (), g2)" by simp
  from q have q': "query ?api g4 VAL_ACCURACY () = Inr acc" by simp
  note v3 = one_edge_sampled [OF p' u1 u2 q' demo_draw_3]
  from w v3 have heap3: "heap ?W' = heap ?W @
       [\<lparr>op = OpSingle 1, op_index = Some 1, primitives = Some [0, 1, 2]\<rparr>]"
    and rng3: "rng ?W' = (\<lambda>i. rng ?W (Suc i))"
    by simp_all
  from sa v3 have sa3: "sampled_archs ?X' = sampled_archs ?X @ [\<lparr>arch = 6, accuracy = Num 1\<rparr>]"
    by (simp add: demo_heap_3)
  from room v3 have hi3: "history ?X' = history ?X @ [\<lparr>arch = 6, accuracy = Num 1\<rparr>]"
    by (simp add: demo_heap_3 demo_history_3)
  let ?Y = "fst (snd (demo_run 101))" and ?V = "snd (snd (demo_run 101))"
  let ?Y' = "fst (snd (new_epoch ?api 101 ?Y ?V))" and ?V' = "snd (snd (new_epoch ?api 101 ?Y ?V))"
  have run101: "random_search ?api \<lparr>config_dataset = ()\<rparr> () () None 0 None [0..<101] demo_world =
     (Inr (), ?Y, ?V)"
    using demo_run_split [of 101] by (simp add: demo_run_101_ok)
  have ne101: "new_epoch ?api 101 ?Y ?V = (Inr (), ?Y', ?V')"
    using demo_epoch_split [of 101 101] by (simp add: demo_epoch_101_ok)
  note t101 = new_epoch_steps [OF run101 valid ne101]
  from t101 [THEN conjunct2, THEN conjunct2, THEN conjunct2, THEN conjunct1]
  obtain h2 h3 s3 h4 s4 acc' where
    p: "prepare_discretization ?api (heap demo_world ! 0) = (Inr (), h2)"
    and u1: "update_edges ?api add_sampled_op_index
               (if truthy None then the None else OPTIMIZER_SCOPE ?api (heap demo_world ! 0))
               False h2 (rng ?V) = (Inr (), h3, s3)"
    and u2: "update_edges ?api (no_draw update_ops)
               (if truthy None then the None else OPTIMIZER_SCOPE ?api (heap demo_world ! 0))
               True h3 s3 = (Inr (), h4, s4)"
    and q: "query ?api h4 VAL_ACCURACY (config_dataset \<lparr>config_dataset = ()\<rparr>) = Inr acc'"
    and sa: "sampled_archs ?Y' = sampled_archs ?Y @ [\<lparr>arch = length (heap ?V), accuracy = acc'\<rparr>]"
    and full: "length (history ?Y) = 100 \<longrightarrow>
               (\<forall>i < 100.
                  py_gt acc' (accuracy (history ?Y ! i)) \<and>
                  (\<forall>j < i. \<not> py_gt acc' (accuracy (history ?Y ! j))) \<longrightarrow>
                  history ?Y' = (history ?Y)[i := \<lparr>arch = length (heap ?V), accuracy = acc'\<rparr>])"
    by blast
  from p first have p': "prepare_discretization ?api three_ops = (Inr (), h2)" by simp
  from q have q': "query ?api h4 VAL_ACCURACY () = Inr acc'" by simp
  note v101 = one_edge_sampled [OF p' u1 u2 q' demo_draw_101]
  from sa v101 have sa101: "sampled_archs ?Y' = sampled_archs ?Y @ [\<lparr>arch = 104, accuracy = Num 1\<rparr>]"
    by (simp add: demo_heap_101)
  have l100: "length (history ?Y) = 100" by (simp add: demo_history_101)
  have lower: "py_gt (Num 1) (accuracy (history ?Y ! 1))"
    and before: "\<forall>j < 1. \<not> py_gt (Num 1) (accuracy (history ?Y ! j))"
    by (simp_all add: demo_history_101)
  from full l100 v101(3) have
    "py_gt (Num 1) (accuracy (history ?Y ! 1)) \<and>
       (\<forall>j < 1. \<not> py_gt (Num 1) (accuracy (history ?Y ! j))) \<longrightarrow>
     history ?Y' = (history ?Y)[1 := \<lparr>arch = length (heap ?V), accuracy = Num 1\<rparr>]"
    by simp
  with lower before have hi101: "history ?Y' = (history ?Y)[1 := \<lparr>arch = 104, accuracy = Num 1\<rparr>]"
    by (simp add: demo_heap_101)
  from demo_run_3_ok valid demo_epoch_ok n3 ss3 clone3 heap3 rng3 sa3 hi3
    demo_run_101_ok demo_epoch_101_ok sa101 hi101
  show ?thesis by simp
qed

end
